theory Spec2Isabelle
  imports Complex_Main
begin

section \<open>JavaScript strings\<close>

text \<open>
  A JavaScript string is a sequence of UTF-16 code units. The header pattern of the chat
  parser names U+2013 and U+2014, and \<open>\s\<close> and \<open>trim\<close> know white space beyond Latin-1,
  so a code unit is a natural number here and not an 8-bit \<open>char\<close>. \<open>js\<close> turns an
  ASCII literal into such a string.
\<close>

type_synonym jschar = nat
type_synonym jsstring = "nat list"

definition js :: "string \<Rightarrow> jsstring" where
  "js s = map of_char s"

definition isDigit :: "jschar \<Rightarrow> bool" where
  "isDigit c = (48 \<le> c \<and> c \<le> 57)"

text \<open>WhiteSpace and LineTerminator of ECMAScript: what \<open>\s\<close> matches and \<open>trim\<close> strips.\<close>

definition isSpace :: "jschar \<Rightarrow> bool" where
  "isSpace c = (c = 9 \<or> c = 10 \<or> c = 11 \<or> c = 12 \<or> c = 13 \<or> c = 32 \<or> c = 160
     \<or> c = 5760 \<or> (8192 \<le> c \<and> c \<le> 8202) \<or> c = 8232 \<or> c = 8233 \<or> c = 8239
     \<or> c = 8287 \<or> c = 12288 \<or> c = 65279)"

definition isLineTerminator :: "jschar \<Rightarrow> bool" where
  "isLineTerminator c = (c = 10 \<or> c = 13 \<or> c = 8232 \<or> c = 8233)"

text \<open>
  Canonicalize of a pattern without the \<open>u\<close> flag, as far as ASCII is concerned: an ASCII
  letter goes to its upper case, and a code unit from 128 on never goes to an ASCII one.
  The ignore-case patterns of the parser hold ASCII characters only, so nothing else of
  the case mapping is needed.
\<close>

definition canonicalize :: "jschar \<Rightarrow> jschar" where
  "canonicalize c = (if 97 \<le> c \<and> c \<le> 122 then c - 32 else c)"

definition trim :: "jsstring \<Rightarrow> jsstring" where
  "trim s = rev (dropWhile isSpace (rev (dropWhile isSpace s)))"

text \<open>
  \<open>String.prototype.split\<close> with a separator that matches exactly one code unit (a
  one-character string or a character class): the pieces between the separators, and the
  whole string, also the empty one, when there is none.
\<close>

fun split_acc :: "(jschar \<Rightarrow> bool) \<Rightarrow> jsstring \<Rightarrow> jsstring \<Rightarrow> jsstring list" where
  "split_acc p acc [] = [rev acc]"
| "split_acc p acc (c # cs) =
     (if p c then rev acc # split_acc p [] cs else split_acc p (c # acc) cs)"

definition split :: "(jschar \<Rightarrow> bool) \<Rightarrow> jsstring \<Rightarrow> jsstring list" where
  "split p s = split_acc p [] s"

section \<open>Regular expressions\<close>

text \<open>
  The patterns of the parser use character classes, quantifiers over a single class,
  optional groups, capture groups and the two anchors. A pattern is the list of its
  terms; the matcher tries the alternatives in the order of a backtracking engine
  (greedy: one more repetition first, lazy: the rest of the pattern first) and returns
  the first match.
\<close>

datatype cls =
    Digit             \<comment> \<open>\<open>\d\<close>\<close>
  | Space             \<comment> \<open>\<open>\s\<close>\<close>
  | Dot               \<comment> \<open>\<open>.\<close> without the \<open>s\<close> flag\<close>
  | AnyChar           \<comment> \<open>\<open>[\s\S]\<close>\<close>
  | Chars "jschar list"   \<comment> \<open>a literal character or a class \<open>[...]\<close>\<close>
  | CharI jschar      \<comment> \<open>a literal character under the \<open>i\<close> flag\<close>

fun cls_member :: "cls \<Rightarrow> jschar \<Rightarrow> bool" where
  "cls_member Digit c = isDigit c"
| "cls_member Space c = isSpace c"
| "cls_member Dot c = (\<not> isLineTerminator c)"
| "cls_member AnyChar c = True"
| "cls_member (Chars cs) c = (c \<in> set cs)"
| "cls_member (CharI a) c = (canonicalize c = canonicalize a)"

datatype item =
    Cls cls
  | Rep nat "nat option" bool cls  \<comment> \<open>at least, at most (\<open>None\<close>: unbounded), greedy, class\<close>
  | Opt "item list"                \<comment> \<open>\<open>(?:...)?\<close>\<close>
  | GroupOpen nat
  | GroupClose nat
  | Bos                            \<comment> \<open>\<open>^\<close> without the \<open>m\<close> flag\<close>
  | Eos                            \<comment> \<open>\<open>$\<close> without the \<open>m\<close> flag\<close>

type_synonym regex = "item list"

fun isize :: "item \<Rightarrow> nat" where
  "isize (Opt g) = Suc (sum_list (map isize g))"
| "isize _ = 1"

definition dec :: "nat option \<Rightarrow> nat option" where
  "dec hi = map_option (\<lambda>n. n - 1) hi"

text \<open>
  \<open>rx r i s opens caps\<close> matches the terms \<open>r\<close> against \<open>s\<close>, the input from index \<open>i\<close> on.
  \<open>opens\<close> holds, for each group entered, the input that was left at its opening
  parenthesis; \<open>caps\<close> the text of each group closed. The result is the captures and the
  index where the match ends.
\<close>

function rx :: "regex \<Rightarrow> nat \<Rightarrow> jsstring \<Rightarrow> (nat \<times> jsstring) list \<Rightarrow> (nat \<times> jsstring) list
    \<Rightarrow> ((nat \<times> jsstring) list \<times> nat) option" where
  "rx [] i s opens caps = Some (caps, i)"
| "rx (Cls c # r) i s opens caps =
     (case s of [] \<Rightarrow> None
      | x # xs \<Rightarrow> if cls_member c x then rx r (Suc i) xs opens caps else None)"
| "rx (Rep lo hi greedy c # r) i s opens caps =
     (if 0 < lo then
        (case s of [] \<Rightarrow> None
         | x # xs \<Rightarrow> if cls_member c x
             then rx (Rep (lo - 1) (dec hi) greedy c # r) (Suc i) xs opens caps else None)
      else if hi = Some 0 then rx r i s opens caps
      else if greedy then
        (case s of [] \<Rightarrow> rx r i s opens caps
         | x # xs \<Rightarrow> if cls_member c x
             then (case rx (Rep 0 (dec hi) greedy c # r) (Suc i) xs opens caps of
                     Some m \<Rightarrow> Some m
                   | None \<Rightarrow> rx r i s opens caps)
             else rx r i s opens caps)
      else
        (case rx r i s opens caps of
           Some m \<Rightarrow> Some m
         | None \<Rightarrow>
            (case s of [] \<Rightarrow> None
             | x # xs \<Rightarrow> if cls_member c x
                 then rx (Rep 0 (dec hi) greedy c # r) (Suc i) xs opens caps else None)))"
| "rx (Opt g # r) i s opens caps =
     (case rx (g @ r) i s opens caps of
        Some m \<Rightarrow> Some m
      | None \<Rightarrow> rx r i s opens caps)"
| "rx (GroupOpen k # r) i s opens caps = rx r i s ((k, s) # opens) caps"
| "rx (GroupClose k # r) i s opens caps =
     (case map_of opens k of
        None \<Rightarrow> None
      | Some start \<Rightarrow> rx r i s opens ((k, take (length start - length s) start) # caps))"
| "rx (Bos # r) i s opens caps = (if i = 0 then rx r i s opens caps else None)"
| "rx (Eos # r) i s opens caps = (if s = [] then rx r i s opens caps else None)"
  by pat_completeness auto
termination
  by (relation "measure (\<lambda>(r, i, s, opens, caps). sum_list (map isize r) + length s)") auto

text \<open>
  RegExpBuiltinExec without the \<open>g\<close> and \<open>y\<close> flags: the first start index, from 0 on,
  at which the pattern matches. The result is the start index, the captures and the end
  index.
\<close>

fun exec_from :: "regex \<Rightarrow> nat \<Rightarrow> jsstring \<Rightarrow> (nat \<times> (nat \<times> jsstring) list \<times> nat) option" where
  "exec_from r i s =
     (case rx r i s [] [] of
        Some m \<Rightarrow> Some (i, m)
      | None \<Rightarrow> (case s of [] \<Rightarrow> None | x # xs \<Rightarrow> exec_from r (Suc i) xs))"

definition exec :: "regex \<Rightarrow> jsstring \<Rightarrow> (nat \<times> (nat \<times> jsstring) list \<times> nat) option" where
  "exec r s = exec_from r 0 s"

definition test :: "regex \<Rightarrow> jsstring \<Rightarrow> bool" where
  "test r s = (exec r s \<noteq> None)"

text \<open>\<open>s.replace(r, '')\<close> for a pattern without the \<open>g\<close> flag: the first match is cut out.\<close>

definition replace_empty :: "regex \<Rightarrow> jsstring \<Rightarrow> jsstring" where
  "replace_empty r s =
     (case exec r s of
        None \<Rightarrow> s
      | Some (b, caps, e) \<Rightarrow> take b s @ drop e s)"

definition lit :: "string \<Rightarrow> regex" where
  "lit s = map (\<lambda>c. Cls (Chars [of_char c])) s"

definition lit_i :: "string \<Rightarrow> regex" where
  "lit_i s = map (\<lambda>c. Cls (CharI (of_char c))) s"

definition opt1 :: "cls \<Rightarrow> item" where
  "opt1 c = Rep 0 (Some 1) True c"       \<comment> \<open>\<open>c?\<close>\<close>

definition star :: "cls \<Rightarrow> item" where
  "star c = Rep 0 None True c"           \<comment> \<open>\<open>c*\<close>\<close>

definition plus1 :: "cls \<Rightarrow> item" where
  "plus1 c = Rep 1 None True c"           \<comment> \<open>\<open>c+\<close>\<close>

definition plus_lazy :: "cls \<Rightarrow> item" where
  "plus_lazy c = Rep 1 None False c"     \<comment> \<open>\<open>c+?\<close>\<close>

definition rep :: "nat \<Rightarrow> nat \<Rightarrow> cls \<Rightarrow> item" where
  "rep lo hi c = Rep lo (Some hi) True c"  \<comment> \<open>\<open>c{lo,hi}\<close>\<close>

section \<open>Numbers from strings\<close>

text \<open>
  A JavaScript number is an \<open>int option\<close> here, \<open>None\<close> being NaN. The numbers of the
  parser come from groups of at most four digits, far below the range where a double
  stops being exact.
\<close>

type_synonym jsnum = "int option"

definition isHexDigit :: "jschar \<Rightarrow> bool" where
  "isHexDigit c = (isDigit c \<or> (65 \<le> c \<and> c \<le> 70) \<or> (97 \<le> c \<and> c \<le> 102))"

definition digitValue :: "jschar \<Rightarrow> int" where
  "digitValue c = (if isDigit c then int c - 48 else if 97 \<le> c then int c - 87 else int c - 55)"

definition numeral_value :: "int \<Rightarrow> jsstring \<Rightarrow> int" where
  "numeral_value radix z = foldl (\<lambda>a c. radix * a + digitValue c) 0 z"

text \<open>
  \<open>parseInt(string)\<close> with no radix: leading white space and a sign are skipped, \<open>0x\<close>
  selects radix 16, the longest prefix of digits is read, and no digit at all gives NaN.
\<close>

definition parseInt :: "jsstring \<Rightarrow> jsnum" where
  "parseInt str =
     (let s = dropWhile isSpace str;
          neg = (case s of [] \<Rightarrow> False | c # _ \<Rightarrow> c = 45);
          s1 = (case s of [] \<Rightarrow> [] | c # cs \<Rightarrow> if c = 43 \<or> c = 45 then cs else s);
          hex = (case s1 of a # b # _ \<Rightarrow> a = 48 \<and> (b = 120 \<or> b = 88) | _ \<Rightarrow> False);
          s2 = (if hex then drop 2 s1 else s1);
          z = takeWhile (if hex then isHexDigit else isDigit) s2
      in if z = [] then None
         else Some ((if neg then - 1 else 1) * numeral_value (if hex then 16 else 10) z))"

text \<open>
  \<open>Number(string)\<close> on the strings the parser gives it, the pieces of a matched time
  token between its colons: white space is trimmed, the empty string is 0 and a string of
  decimal digits is its value. The other numeric literals of StringToNumber (sign,
  fraction, exponent, radix prefix, \<open>Infinity\<close>) cannot come out of a matched time token
  and are not told apart from NaN.
\<close>

definition Number :: "jsstring \<Rightarrow> jsnum" where
  "Number str =
     (let t = trim str
      in if t = [] then Some 0
         else if list_all isDigit t then Some (numeral_value 10 t)
         else None)"

section \<open>The chat export parser (\<open>src/lib/chatParser.ts\<close>)\<close>

text \<open>
  A \<open>Date\<close> is the tuple of arguments handed to its constructor: year, month (from 0),
  day, hours, minutes. What the constructor does with them (carrying an overflowing month
  or day, the local time zone) is outside the model.
\<close>

record Date =
  year :: jsnum
  month :: jsnum
  day :: jsnum
  hours :: jsnum
  minutes :: jsnum

record 'u ParsedMessage =
  msg_id :: 'u
  timestamp :: Date
  sender :: jsstring
  msg_text :: jsstring
  isSystem :: bool

record 'u ParseResult =
  messages :: "'u ParsedMessage list"
  participants :: "jsstring list"
  preview :: "jsstring list"

definition WHATSAPP_REGEX :: regex where
  "WHATSAPP_REGEX =
     [Bos, opt1 (Chars (js ''['')),
      GroupOpen 1,
        rep 1 2 Digit, Cls (Chars (js ''/-.'')), rep 1 2 Digit, Cls (Chars (js ''/-.'')),
        rep 2 4 Digit,
      GroupClose 1,
      opt1 (Chars (js '','')), plus1 Space,
      GroupOpen 2,
        rep 1 2 Digit, Cls (Chars (js '':'')), rep 2 2 Digit,
        Opt [Cls (Chars (js '':'')), rep 2 2 Digit],
        Opt [star Space, Cls (Chars (js ''AaPp'')), Cls (Chars (js ''Mm''))],
      GroupClose 2,
      opt1 (Chars (js '']'')), star Space, opt1 (Chars [45, 8211, 8212]), star Space,
      GroupOpen 3, plus_lazy Dot, GroupClose 3,
      Cls (Chars (js '':'')), Cls Space,
      GroupOpen 4, star AnyChar, GroupClose 4]"

definition SYSTEM_PATTERNS :: "regex list" where
  "SYSTEM_PATTERNS =
     [lit_i ''messages and calls are end-to-end encrypted'',
      lit_i ''created group'',
      lit_i ''added you'',
      lit_i ''changed the subject'',
      lit_i ''changed this group'',
      lit_i ''left'' @ [Eos],
      lit_i ''removed '',
      lit_i ''joined using'',
      lit_i ''changed the group'',
      lit_i ''your security code'',
      lit_i ''disappeared message'',
      lit_i ''message was deleted'',
      lit_i ''you were added'']"

text \<open>The comparisons and the arithmetic of the source on numbers that may be NaN.\<close>

definition num_gt :: "jsnum \<Rightarrow> int \<Rightarrow> bool" where
  "num_gt a n = (case a of None \<Rightarrow> False | Some x \<Rightarrow> x > n)"

definition num_lt :: "jsnum \<Rightarrow> int \<Rightarrow> bool" where
  "num_lt a n = (case a of None \<Rightarrow> False | Some x \<Rightarrow> x < n)"

definition num_add :: "jsnum \<Rightarrow> int \<Rightarrow> jsnum" where
  "num_add a n = map_option (\<lambda>x. x + n) a"

text \<open>\<open>parseInt(parts[k])\<close>: a missing part is \<open>undefined\<close>, which \<open>parseInt\<close> reads as NaN.\<close>

definition parseInt_at :: "jsstring list \<Rightarrow> nat \<Rightarrow> jsnum" where
  "parseInt_at parts k = (if k < length parts then parseInt (parts ! k) else None)"

definition parseTimestamp :: "jsstring \<Rightarrow> jsstring \<Rightarrow> Date" where
  "parseTimestamp dateStr timeStr =
     (let parts = split (\<lambda>c. c \<in> set (js ''/-.'')) dateStr;
          (day0, month0) =
            (if num_gt (parseInt_at parts 0) 12 then
               (parseInt_at parts 0, num_add (parseInt_at parts 1) (- 1))
             else if num_gt (parseInt_at parts 1) 12 then
               (parseInt_at parts 1, num_add (parseInt_at parts 0) (- 1))
             else
               (parseInt_at parts 1, num_add (parseInt_at parts 0) (- 1)));
          year0 = parseInt_at parts 2;
          year1 = (if num_lt year0 100 then num_add year0 2000 else year0);
          timeParts0 = trim timeStr;
          isPM = test (lit_i ''pm'') timeParts0;
          isAM = test (lit_i ''am'') timeParts0;
          timeParts = replace_empty
            [star Space, Cls (Chars (js ''AaPp'')), Cls (Chars (js ''Mm''))] timeParts0;
          nums = map Number (split (\<lambda>c. c = 58) timeParts);
          hours0 = (case nums of [] \<Rightarrow> None | x # _ \<Rightarrow> x);
          minutes0 = (case nums of _ # y # _ \<Rightarrow> y | _ \<Rightarrow> None);
          h1 = (if isPM \<and> hours0 \<noteq> Some 12 then num_add hours0 12 else hours0);
          h2 = (if isAM \<and> h1 = Some 12 then Some 0 else h1)
      in \<lparr>year = year1, month = month0, day = day0, hours = h2,
          minutes = (case minutes0 of None \<Rightarrow> Some 0 | Some m \<Rightarrow> Some m)\<rparr>)"

definition isSystemMessage :: "jsstring \<Rightarrow> bool" where
  "isSystemMessage txt = list_ex (\<lambda>p. test p txt) SYSTEM_PATTERNS"

text \<open>
  \<open>line.match(WHATSAPP_REGEX)\<close>, destructured into the four groups. Each group is a
  mandatory part of the pattern, so a match has all four (\<open>match_header_iff_exec\<close>
  below).
\<close>

definition match_header :: "jsstring \<Rightarrow> (jsstring \<times> jsstring \<times> jsstring \<times> jsstring) option" where
  "match_header line =
     (case exec WHATSAPP_REGEX line of
        None \<Rightarrow> None
      | Some (b, caps, e) \<Rightarrow>
          (case (map_of caps 1, map_of caps 2, map_of caps 3, map_of caps 4) of
             (Some dateStr, Some timeStr, Some sender0, Some txt) \<Rightarrow>
               Some (dateStr, timeStr, sender0, txt)
           | _ \<Rightarrow> None))"

text \<open>
  The local variables of \<open>parseWhatsAppChat\<close>. \<open>participantSet\<close> is a JavaScript
  \<open>Set\<close>: no duplicates, in insertion order. \<open>crypto.randomUUID()\<close> is an input of the
  model: the \<open>k\<close>-th call returns \<open>uuid k\<close>, and \<open>uuidCalls\<close> counts the calls made.
\<close>

record 'u parse_vars =
  messages_v :: "'u ParsedMessage list"
  participantSet :: "jsstring list"
  preview_v :: "jsstring list"
  currentMsg :: "'u ParsedMessage option"
  lineCount :: nat
  uuidCalls :: nat

definition set_add :: "'a \<Rightarrow> 'a list \<Rightarrow> 'a list" where
  "set_add x xs = (if x \<in> set xs then xs else xs @ [x])"

text \<open>The block run on the in-flight message, at a new header and at the end of the input.\<close>

definition push_current :: "'u parse_vars \<Rightarrow> 'u parse_vars" where
  "push_current v =
     (case currentMsg v of
        None \<Rightarrow> v
      | Some m \<Rightarrow>
          v\<lparr>participantSet :=
              (if \<not> isSystem m then set_add (sender m) (participantSet v)
               else participantSet v),
            messages_v := messages_v v @ [m]\<rparr>)"

text \<open>The body of the loop over the lines.\<close>

definition parse_line :: "(nat \<Rightarrow> 'u) \<Rightarrow> 'u parse_vars \<Rightarrow> jsstring \<Rightarrow> 'u parse_vars" where
  "parse_line uuid v0 line =
     (let v = (if lineCount v0 < 30
               then v0\<lparr>preview_v := preview_v v0 @ [line], lineCount := lineCount v0 + 1\<rparr>
               else v0)
      in case match_header line of
           Some (dateStr, timeStr, sender0, txt) \<Rightarrow>
             (let v1 = push_current v
              in v1\<lparr>currentMsg := Some
                     \<lparr>msg_id = uuid (uuidCalls v1),
                      timestamp = parseTimestamp dateStr timeStr,
                      sender = trim sender0,
                      msg_text = trim txt,
                      isSystem = isSystemMessage (trim txt)\<rparr>,
                    uuidCalls := uuidCalls v1 + 1\<rparr>)
         | None \<Rightarrow>
             (case currentMsg v of
                Some m \<Rightarrow>
                  if trim line \<noteq> []
                  then v\<lparr>currentMsg := Some (m\<lparr>msg_text := msg_text m @ [10] @ line\<rparr>)\<rparr>
                  else v
              | None \<Rightarrow> v))"

definition parse_init :: "'u parse_vars" where
  "parse_init = \<lparr>messages_v = [], participantSet = [], preview_v = [], currentMsg = None,
                  lineCount = 0, uuidCalls = 0\<rparr>"

definition parse_lines :: "(nat \<Rightarrow> 'u) \<Rightarrow> jsstring list \<Rightarrow> 'u ParseResult" where
  "parse_lines uuid ls =
     (let v = push_current (foldl (parse_line uuid) parse_init ls)
      in \<lparr>messages = filter (\<lambda>m. \<not> isSystem m) (messages_v v),
          participants = participantSet v,
          preview = preview_v v\<rparr>)"

text \<open>\<open>content.split('\n')\<close>.\<close>

definition lines_of :: "jsstring \<Rightarrow> jsstring list" where
  "lines_of content = split (\<lambda>c. c = 10) content"

definition parseWhatsAppChat :: "(nat \<Rightarrow> 'u) \<Rightarrow> jsstring \<Rightarrow> 'u ParseResult" where
  "parseWhatsAppChat uuid content = parse_lines uuid (lines_of content)"

unbundle bit_operations_syntax

section \<open>The entitlement engine\<close>

text \<open>
  The tables of the migrations, each a list of rows, and the PostgREST calls the edge
  functions make on them. Identifiers, codes and column texts are ASCII strings; an
  instant is a number of milliseconds; a numeric column is a rational, and the
  arithmetic on it is exact (the rounding of doubles is not modelled).
\<close>

type_synonym uuid = string
type_synonym instant = int

record promo_code =
  pc_id :: uuid
  pc_code :: string
  pc_discount_type :: string
  pc_discount_value :: rat
  pc_max_uses :: "int option"
  pc_times_used :: int
  pc_valid_from :: instant
  pc_valid_until :: "instant option"
  pc_plan_duration :: string
  pc_is_active :: bool

record promo_redemption =
  pr_promo_code_id :: uuid
  pr_user_id :: uuid

record user_subscription =
  us_user_id :: uuid
  us_plan :: string
  us_razorpay_subscription_id :: "string option"
  us_razorpay_payment_id :: "string option"
  us_status :: string
  us_current_period_start :: "instant option"
  us_current_period_end :: "instant option"
  us_plan_duration :: "string option"

record daily_usage_row =
  du_user_id :: uuid
  du_usage_date :: string
  du_messages_sent :: int

record db =
  promo_codes :: "promo_code list"
  promo_redemptions :: "promo_redemption list"
  user_subscriptions :: "user_subscription list"
  daily_usage :: "daily_usage_row list"

text \<open>
  The constraints of the schema that the handlers lean on:
  \<open>promo_codes.id\<close> is the primary key, \<open>promo_codes.code\<close> is \<open>UNIQUE\<close>,
  \<open>promo_redemptions\<close> is \<open>UNIQUE (promo_code_id, user_id)\<close>, \<open>user_subscriptions.user_id\<close>
  is \<open>UNIQUE\<close> and \<open>daily_usage\<close> is \<open>UNIQUE (user_id, usage_date)\<close>.
\<close>

definition db_constraints :: "db \<Rightarrow> bool" where
  "db_constraints d =
     (distinct (map pc_id (promo_codes d)) \<and>
      distinct (map pc_code (promo_codes d)) \<and>
      distinct (map (\<lambda>r. (pr_promo_code_id r, pr_user_id r)) (promo_redemptions d)) \<and>
      distinct (map us_user_id (user_subscriptions d)) \<and>
      distinct (map (\<lambda>r. (du_user_id r, du_usage_date r)) (daily_usage d)))"

text \<open>\<open>.maybeSingle()\<close>: the row when the filter leaves exactly one, \<open>null\<close> otherwise.\<close>

definition maybeSingle :: "'a list \<Rightarrow> 'a option" where
  "maybeSingle rows = (case rows of [r] \<Rightarrow> Some r | _ \<Rightarrow> None)"

text \<open>
  \<open>insert\<close> into \<open>promo_redemptions\<close>: the unique constraint refuses a pair that is
  already there; the call then leaves the table as it was and returns an error.
\<close>

definition insert_redemption :: "promo_redemption \<Rightarrow> db \<Rightarrow> string option \<times> db" where
  "insert_redemption r d =
     (if (pr_promo_code_id r, pr_user_id r)
           \<in> set (map (\<lambda>x. (pr_promo_code_id x, pr_user_id x)) (promo_redemptions d))
      then (Some ''duplicate key value violates unique constraint'', d)
      else (None, d\<lparr>promo_redemptions := promo_redemptions d @ [r]\<rparr>))"

text \<open>\<open>update({times_used: n}).eq('id', promoId)\<close> on \<open>promo_codes\<close>.\<close>

definition update_times_used :: "uuid \<Rightarrow> int \<Rightarrow> db \<Rightarrow> db" where
  "update_times_used promoId n d =
     d\<lparr>promo_codes :=
         map (\<lambda>p. if pc_id p = promoId then p\<lparr>pc_times_used := n\<rparr> else p) (promo_codes d)\<rparr>"

text \<open>
  \<open>upsert(row, {onConflict: 'user_id'})\<close> on \<open>user_subscriptions\<close>: \<open>cols\<close> writes the
  columns the call names; a row of the user keeps its other columns, a new row takes the
  defaults of the table for them.
\<close>

definition subscription_defaults :: "uuid \<Rightarrow> instant \<Rightarrow> user_subscription" where
  "subscription_defaults u now =
     \<lparr>us_user_id = u, us_plan = ''free'', us_razorpay_subscription_id = None,
      us_razorpay_payment_id = None, us_status = ''active'',
      us_current_period_start = Some now, us_current_period_end = None,
      us_plan_duration = Some ''month''\<rparr>"

definition upsert_subscription ::
    "uuid \<Rightarrow> instant \<Rightarrow> (user_subscription \<Rightarrow> user_subscription) \<Rightarrow> db \<Rightarrow> db" where
  "upsert_subscription u now cols d =
     (if u \<in> set (map us_user_id (user_subscriptions d))
      then d\<lparr>user_subscriptions :=
               map (\<lambda>r. if us_user_id r = u then cols r else r) (user_subscriptions d)\<rparr>
      else d\<lparr>user_subscriptions :=
               user_subscriptions d @ [cols (subscription_defaults u now)]\<rparr>)"

subsection \<open>Responses\<close>

datatype json =
    JUndefined
  | JNull
  | JBool bool
  | JNum rat
  | JStr string
  | JArr "json list"
  | JObj "(string \<times> json) list"

record response =
  status :: nat
  body :: json

definition ok_response :: "json \<Rightarrow> response" where
  "ok_response b = \<lparr>status = 200, body = b\<rparr>"

text \<open>\<open>msg.includes(sub)\<close>.\<close>

fun includes_str :: "string \<Rightarrow> string \<Rightarrow> bool" where
  "includes_str [] sub = (sub = [])"
| "includes_str (c # cs) sub = (take (length sub) (c # cs) = sub \<or> includes_str cs sub)"

subsection \<open>The promo actions of \<open>admin-api\<close>\<close>

text \<open>
  \<open>toUpperCase\<close> on the ASCII letters; the mappings of the other characters are not
  modelled.
\<close>

definition toUpperCase :: "string \<Rightarrow> string" where
  "toUpperCase s =
     map (\<lambda>c. case map_of (zip ''abcdefghijklmnopqrstuvwxyz'' ''ABCDEFGHIJKLMNOPQRSTUVWXYZ'') c of
                 None \<Rightarrow> c
               | Some u \<Rightarrow> u) s"

text \<open>
  \<open>Date\<close>'s calendar arithmetic (\<open>setDate\<close>, \<open>setMonth\<close>, \<open>setFullYear\<close> on top of the
  getters) is an input of the model.
\<close>

record calendar =
  addDays :: "int \<Rightarrow> instant \<Rightarrow> instant"
  addMonths :: "int \<Rightarrow> instant \<Rightarrow> instant"
  addYears :: "int \<Rightarrow> instant \<Rightarrow> instant"

definition getDurationEnd :: "calendar \<Rightarrow> instant \<Rightarrow> string \<Rightarrow> instant" where
  "getDurationEnd cal now duration =
     (if duration = ''week'' then addDays cal 7 now
      else if duration = ''month'' then addMonths cal 1 now
      else if duration = ''year'' then addYears cal 1 now
      else addMonths cal 1 now)"

text \<open>
  A handler returns the response, or \<open>Inl\<close> the message of the \<open>Error\<close> it throws, and
  the database it leaves. \<open>now\<close> is the clock, \<open>user\<close> the id of the caller that
  \<open>auth.getUser\<close> resolved.
\<close>

definition validate_promo :: "instant \<Rightarrow> uuid \<Rightarrow> string \<Rightarrow> db \<Rightarrow> (string + response) \<times> db" where
  "validate_promo now user code d =
     (case maybeSingle (filter (\<lambda>p. pc_code p = toUpperCase code \<and> pc_is_active p = True)
                          (promo_codes d)) of
        None \<Rightarrow>
          (Inr (ok_response (JObj [(''valid'', JBool False),
                                   (''error'', JStr ''Invalid promo code'')])), d)
      | Some promo \<Rightarrow>
          if (case pc_valid_until promo of None \<Rightarrow> False | Some u \<Rightarrow> u < now) then
            (Inr (ok_response (JObj [(''valid'', JBool False),
                                     (''error'', JStr ''Promo code expired'')])), d)
          else if (case pc_max_uses promo of None \<Rightarrow> False
                   | Some m \<Rightarrow> m \<noteq> 0 \<and> pc_times_used promo \<ge> m) then
            (Inr (ok_response (JObj [(''valid'', JBool False),
                                     (''error'', JStr ''Promo code fully redeemed'')])), d)
          else
            (case maybeSingle (filter (\<lambda>r. pr_promo_code_id r = pc_id promo \<and> pr_user_id r = user)
                                 (promo_redemptions d)) of
               Some existing \<Rightarrow>
                 (Inr (ok_response (JObj [(''valid'', JBool False),
                                          (''error'', JStr ''Already used this promo code'')])), d)
             | None \<Rightarrow>
                 (Inr (ok_response (JObj [(''valid'', JBool True),
                                          (''discount_type'', JStr (pc_discount_type promo)),
                                          (''discount_value'', JNum (pc_discount_value promo)),
                                          (''plan_duration'', JStr (pc_plan_duration promo)),
                                          (''promo_id'', JStr (pc_id promo))])), d)))"

definition baseAmountINR :: rat where
  "baseAmountINR = 499"

definition isFreePromo :: "promo_code \<Rightarrow> bool" where
  "isFreePromo promo =
     ((pc_discount_type promo = ''percentage'' \<and> pc_discount_value promo \<ge> 100) \<or>
      (pc_discount_type promo = ''fixed'' \<and> pc_discount_value promo \<ge> baseAmountINR))"

definition redeem_promo ::
    "calendar \<Rightarrow> instant \<Rightarrow> uuid \<Rightarrow> uuid \<Rightarrow> db \<Rightarrow> (string + response) \<times> db" where
  "redeem_promo cal now user promoId d =
     (case maybeSingle (filter (\<lambda>p. pc_id p = promoId \<and> pc_is_active p = True) (promo_codes d)) of
        None \<Rightarrow> (Inl ''Invalid promo code'', d)
      | Some promo \<Rightarrow>
          if \<not> isFreePromo promo then
            (Inl ''This promo code gives a discount. Please proceed with payment.'', d)
          else
            (let (err, d1) = insert_redemption
                               \<lparr>pr_promo_code_id = promoId, pr_user_id = user\<rparr> d;
                 d2 = update_times_used promoId (pc_times_used promo + 1) d1;
                 periodEnd = getDurationEnd cal now (pc_plan_duration promo);
                 d3 = upsert_subscription user now
                        (\<lambda>r. r\<lparr>us_plan := ''pro'', us_status := ''active'',
                                us_plan_duration := Some (pc_plan_duration promo),
                                us_current_period_start := Some now,
                                us_current_period_end := Some periodEnd\<rparr>) d2
             in (Inr (ok_response (JObj [(''success'', JBool True),
                                         (''plan_duration'', JStr (pc_plan_duration promo))])),
                 d3)))"

text \<open>The \<open>catch\<close> at the end of \<open>admin-api\<close>.\<close>

definition admin_api_catch :: "(string + response) \<Rightarrow> response" where
  "admin_api_catch r =
     (case r of
        Inr resp \<Rightarrow> resp
      | Inl msg \<Rightarrow>
          \<lparr>status = (if includes_str msg ''Forbidden'' then 403
                      else if includes_str msg ''Unauthorized'' then 401 else 400),
           body = JObj [(''error'', JStr msg)]\<rparr>)"

subsection \<open>\<open>razorpay-create-order\<close>\<close>

text \<open>\<open>Math.round\<close>: the nearest integer, a half going up.\<close>

definition Math_round :: "rat \<Rightarrow> rat" where
  "Math_round x = of_int \<lfloor>x + 1 / 2\<rfloor>"

text \<open>
  The amount of the order, in the smallest unit of the currency: the price of the plan,
  cut by the promo code when the request names one that is there and active.
\<close>

definition order_currency :: "string \<Rightarrow> string" where
  "order_currency reqCurrency = (if reqCurrency = ''USD'' then ''USD'' else ''INR'')"

definition order_amount :: "string \<Rightarrow> string option \<Rightarrow> db \<Rightarrow> rat" where
  "order_amount reqCurrency promoId d =
     (let currency = order_currency reqCurrency;
          amount = (if currency = ''INR'' then 49900 else 900)
      in case promoId of
           None \<Rightarrow> amount
         | Some pid \<Rightarrow>
             if pid = [] then amount
             else
               (case maybeSingle (filter (\<lambda>p. pc_id p = pid \<and> pc_is_active p = True)
                                    (promo_codes d)) of
                  None \<Rightarrow> amount
                | Some promo \<Rightarrow>
                    if pc_discount_type promo = ''percentage'' then
                      Math_round (amount * (1 - pc_discount_value promo / 100))
                    else if pc_discount_type promo = ''fixed'' then
                      (let fixedPaise = (if currency = ''INR''
                                         then pc_discount_value promo * 100
                                         else pc_discount_value promo * 100)
                       in max 100 (amount - fixedPaise))
                    else amount))"

record order_request =
  or_amount :: rat
  or_currency :: string
  or_receipt :: string
  or_notes_user_id :: uuid
  or_notes_plan :: string

record gateway_order =
  go_id :: string
  go_amount :: rat
  go_currency :: string

text \<open>
  The handler. The payment gateway is an input: \<open>gateway\<close> answers the order request with
  the order it created, or \<open>Inl\<close> the text of a response that is not ok (the status is
  part of that text).
\<close>

definition create_order ::
    "string option \<Rightarrow> string option \<Rightarrow> string option \<Rightarrow> uuid option
     \<Rightarrow> (order_request \<Rightarrow> string + gateway_order)
     \<Rightarrow> string \<Rightarrow> string \<Rightarrow> string option \<Rightarrow> db \<Rightarrow> response" where
  "create_order RAZORPAY_KEY_ID RAZORPAY_KEY_SECRET authHeader user gateway
       plan reqCurrency promoId d =
     (let thrown = (\<lambda>msg. \<lparr>status = 400, body = JObj [(''error'', JStr msg)]\<rparr>)
      in if RAZORPAY_KEY_ID \<in> {None, Some []} \<or> RAZORPAY_KEY_SECRET \<in> {None, Some []}
         then thrown ''Razorpay credentials not configured''
         else if authHeader \<in> {None, Some []} then thrown ''No auth token''
         else (case user of
           None \<Rightarrow> thrown ''Unauthorized''
         | Some uid \<Rightarrow>
             if plan \<noteq> ''pro'' then thrown ''Invalid plan''
             else
               (case gateway \<lparr>or_amount = order_amount reqCurrency promoId d,
                               or_currency = order_currency reqCurrency,
                               or_receipt = ''pro_'' @ take 8 uid,
                               or_notes_user_id = uid, or_notes_plan = ''pro''\<rparr> of
                  Inl err \<Rightarrow> thrown (''Razorpay order failed '' @ err)
                | Inr order \<Rightarrow>
                    ok_response (JObj [(''order_id'', JStr (go_id order)),
                                       (''amount'', JNum (go_amount order)),
                                       (''currency'', JStr (go_currency order)),
                                       (''key_id'', JStr (the RAZORPAY_KEY_ID))]))))"

text \<open>
  The pages (\<open>Index.tsx\<close>, \<open>SettingsPage.tsx\<close>) choose the endpoint from the validated
  promo: \<open>redeem-promo\<close> for a free one, \<open>razorpay-create-order\<close> otherwise.
\<close>

datatype route = RedeemPromo | CreateOrder

definition handleRedeemPromo_route :: "promo_code \<Rightarrow> route" where
  "handleRedeemPromo_route promo =
     (if (pc_discount_type promo = ''percentage'' \<and> pc_discount_value promo \<ge> 100) \<or>
         (pc_discount_type promo = ''fixed'' \<and> pc_discount_value promo \<ge> 499)
      then RedeemPromo else CreateOrder)"

subsection \<open>\<open>razorpay-verify\<close> and \<open>razorpay-webhook\<close>\<close>

text \<open>
  Bytes are numbers below 256. \<open>TextEncoder.encode\<close> of an ASCII string gives one byte for
  each character. HMAC-SHA-256 of \<open>crypto.subtle\<close> is an input of the model: \<open>hmac key msg\<close>
  is the tag.
\<close>

type_synonym bytes = "nat list"

definition encode :: "string \<Rightarrow> bytes" where
  "encode s = map of_char s"

definition hex_digit :: "nat \<Rightarrow> char" where
  "hex_digit n = ''0123456789abcdef'' ! n"

text \<open>\<open>b.toString(16).padStart(2, '0')\<close> for each byte, joined.\<close>

definition to_hex :: "bytes \<Rightarrow> string" where
  "to_hex bs = concat (map (\<lambda>b. [hex_digit (b div 16), hex_digit (b mod 16)]) bs)"

text \<open>
  HMAC-SHA-256 as \<open>crypto.subtle\<close> computes it (FIPS 180-4 and RFC 2104), on words that
  are numbers below \<open>2 ^ 32\<close>. The handlers take the keyed hash as an input; this is the
  one they run with.
\<close>

definition w32 :: "nat \<Rightarrow> nat" where
  "w32 x = x mod 4294967296"

definition rotr :: "nat \<Rightarrow> nat \<Rightarrow> nat" where
  "rotr n x = x div 2 ^ n + (x mod 2 ^ n) * 2 ^ (32 - n)"

definition shr :: "nat \<Rightarrow> nat \<Rightarrow> nat" where
  "shr n x = x div 2 ^ n"

definition not32 :: "nat \<Rightarrow> nat" where
  "not32 x = 4294967295 - x"

definition Ch :: "nat \<Rightarrow> nat \<Rightarrow> nat \<Rightarrow> nat" where
  "Ch x y z = (x AND y) XOR (not32 x AND z)"

definition Maj :: "nat \<Rightarrow> nat \<Rightarrow> nat \<Rightarrow> nat" where
  "Maj x y z = (x AND y) XOR (x AND z) XOR (y AND z)"

definition Sigma0 :: "nat \<Rightarrow> nat" where
  "Sigma0 x = rotr 2 x XOR rotr 13 x XOR rotr 22 x"

definition Sigma1 :: "nat \<Rightarrow> nat" where
  "Sigma1 x = rotr 6 x XOR rotr 11 x XOR rotr 25 x"

definition sigma0 :: "nat \<Rightarrow> nat" where
  "sigma0 x = rotr 7 x XOR rotr 18 x XOR shr 3 x"

definition sigma1 :: "nat \<Rightarrow> nat" where
  "sigma1 x = rotr 17 x XOR rotr 19 x XOR shr 10 x"

text \<open>The round constants and the initial hash value, in decimal.\<close>

definition K256 :: "nat list" where
  "K256 =
    [1116352408, 1899447441, 3049323471, 3921009573, 961987163, 1508970993, 2453635748,
     2870763221, 3624381080, 310598401, 607225278, 1426881987, 1925078388, 2162078206,
     2614888103, 3248222580, 3835390401, 4022224774, 264347078, 604807628, 770255983,
     1249150122, 1555081692, 1996064986, 2554220882, 2821834349, 2952996808, 3210313671,
     3336571891, 3584528711, 113926993, 338241895, 666307205, 773529912, 1294757372,
     1396182291, 1695183700, 1986661051, 2177026350, 2456956037, 2730485921, 2820302411,
     3259730800, 3345764771, 3516065817, 3600352804, 4094571909, 275423344, 430227734,
     506948616, 659060556, 883997877, 958139571, 1322822218, 1537002063, 1747873779,
     1955562222, 2024104815, 2227730452, 2361852424, 2428436474, 2756734187, 3204031479,
     3329325298]"

definition H256 :: "nat list" where
  "H256 =
    [1779033703, 3144134277, 1013904242, 2773480762, 1359893119, 2600822924, 528734635,
     1541459225]"

text \<open>The message schedule, newest word first; one word for each round constant.\<close>

fun schedule :: "nat list \<Rightarrow> nat list \<Rightarrow> nat list" where
  "schedule [] rs = rs"
| "schedule (k # ks) rs =
     schedule ks (w32 (sigma1 (rs ! 1) + rs ! 6 + sigma0 (rs ! 14) + rs ! 15) # rs)"

fun round256 :: "nat list \<Rightarrow> nat \<times> nat \<Rightarrow> nat list" where
  "round256 [a, b, c, d, e, f, g, h] (k, w) =
     (let t1 = w32 (h + Sigma1 e + Ch e f g + k + w);
          t2 = w32 (Sigma0 a + Maj a b c)
      in [w32 (t1 + t2), a, b, c, w32 (d + t1), e, f, g])"
| "round256 s kw = s"

definition compress :: "nat list \<Rightarrow> nat list \<Rightarrow> nat list" where
  "compress hs ws =
     map (\<lambda>(x, y). w32 (x + y))
       (zip hs (foldl round256 hs (zip K256 (rev (schedule (drop 16 K256) (rev ws))))))"

fun len :: "'a list \<Rightarrow> nat" where
  "len [] = 0"
| "len (x # xs) = 1 + len xs"

fun be_words :: "bytes \<Rightarrow> nat list" where
  "be_words (a # b # c # d # bs) = (((a * 256 + b) * 256 + c) * 256 + d) # be_words bs"
| "be_words bs = []"

definition be_bytes4 :: "nat \<Rightarrow> bytes" where
  "be_bytes4 x = [x div 16777216 mod 256, x div 65536 mod 256, x div 256 mod 256, x mod 256]"

definition be_bytes8 :: "nat \<Rightarrow> bytes" where
  "be_bytes8 x = be_bytes4 (x div 4294967296) @ be_bytes4 (x mod 4294967296)"

definition pad :: "bytes \<Rightarrow> bytes" where
  "pad m = m @ [128] @ replicate ((119 - len m mod 64) mod 64) 0 @ be_bytes8 (8 * len m)"

function blocks :: "nat list \<Rightarrow> nat list list" where
  "blocks ws = (if len ws < 16 then [] else take 16 ws # blocks (drop 16 ws))"
  by pat_completeness auto
termination
proof (relation "measure length")
  show "wf (measure length)" by simp
next
  fix ws :: "nat list"
  assume "\<not> len ws < 16"
  moreover have "len ws = length ws" by (induction ws) simp_all
  ultimately show "(drop 16 ws, ws) \<in> measure length" by simp
qed

definition sha256 :: "bytes \<Rightarrow> bytes" where
  "sha256 m =
     (let ws = be_words (pad m)
      in concat (map be_bytes4 (foldl compress H256 (blocks ws))))"

definition hmac_sha256 :: "bytes \<Rightarrow> bytes \<Rightarrow> bytes" where
  "hmac_sha256 key msg =
     (let k0 = (if len key > 64 then sha256 key else key);
          k = k0 @ replicate (64 - len k0) 0
      in sha256 (map (\<lambda>b. b XOR 92) k @ sha256 (map (\<lambda>b. b XOR 54) k @ msg)))"

definition verifySignature ::
    "(bytes \<Rightarrow> bytes \<Rightarrow> bytes) \<Rightarrow> string \<Rightarrow> string \<Rightarrow> string \<Rightarrow> string \<Rightarrow> bool" where
  "verifySignature hmac orderId paymentId signature secret =
     (let data = orderId @ ''|'' @ paymentId;
          sig = hmac (encode secret) (encode data);
          hex = to_hex sig
      in hex = signature)"

definition verifyWebhookSignature ::
    "(bytes \<Rightarrow> bytes \<Rightarrow> bytes) \<Rightarrow> string \<Rightarrow> string \<Rightarrow> string \<Rightarrow> bool" where
  "verifyWebhookSignature hmac bdy signature secret =
     (let sig = hmac (encode secret) (encode bdy);
          hex = to_hex sig
      in hex = signature)"

definition razorpay_verify ::
    "(bytes \<Rightarrow> bytes \<Rightarrow> bytes) \<Rightarrow> calendar \<Rightarrow> instant
     \<Rightarrow> string option \<Rightarrow> string option \<Rightarrow> uuid option
     \<Rightarrow> string \<Rightarrow> string \<Rightarrow> string \<Rightarrow> db \<Rightarrow> response \<times> db" where
  "razorpay_verify hmac cal now RAZORPAY_KEY_SECRET authHeader user
       razorpay_order_id razorpay_payment_id razorpay_signature d =
     (let thrown = (\<lambda>msg. \<lparr>status = 400, body = JObj [(''error'', JStr msg)]\<rparr>)
      in case RAZORPAY_KEY_SECRET of
           None \<Rightarrow> (thrown ''Razorpay secret not configured'', d)
         | Some secret \<Rightarrow>
             if secret = [] then (thrown ''Razorpay secret not configured'', d)
             else if authHeader \<in> {None, Some []} then (thrown ''No auth token'', d)
             else
               (case user of
                  None \<Rightarrow> (thrown ''Unauthorized'', d)
                | Some uid \<Rightarrow>
                    if \<not> verifySignature hmac razorpay_order_id razorpay_payment_id
                             razorpay_signature secret
                    then (thrown ''Invalid payment signature'', d)
                    else
                      (ok_response (JObj [(''success'', JBool True), (''plan'', JStr ''pro'')]),
                       upsert_subscription uid now
                         (\<lambda>r. r\<lparr>us_plan := ''pro'', us_status := ''active'',
                                 us_razorpay_payment_id := Some razorpay_payment_id,
                                 us_razorpay_subscription_id := Some razorpay_order_id,
                                 us_current_period_start := Some now,
                                 us_current_period_end := Some (addMonths cal 1 now)\<rparr>) d)))"

text \<open>
  Reading a property: of \<open>undefined\<close> or \<open>null\<close> it throws, of an object it gives the
  member or \<open>undefined\<close>, and none of the names read here is a property of a string, a
  number, a boolean or an array.
\<close>

fun get_prop :: "json \<Rightarrow> string \<Rightarrow> string + json" where
  "get_prop JUndefined k = Inl ''Cannot read properties of undefined''"
| "get_prop JNull k = Inl ''Cannot read properties of null''"
| "get_prop (JObj kvs) k = Inr (case map_of kvs k of None \<Rightarrow> JUndefined | Some v \<Rightarrow> v)"
| "get_prop _ k = Inr JUndefined"

fun truthy :: "json \<Rightarrow> bool" where
  "truthy JUndefined = False"
| "truthy JNull = False"
| "truthy (JBool b) = b"
| "truthy (JNum n) = (n \<noteq> 0)"
| "truthy (JStr s) = (s \<noteq> [])"
| "truthy _ = True"

text \<open>
  \<open>payment.notes?.user_id\<close>, \<open>payment.id\<close> and \<open>payment.order_id\<close> as the gateway sends
  them are strings. A value of another kind is written as \<open>NULL\<close> in the model.
\<close>

fun text_of :: "json \<Rightarrow> string option" where
  "text_of (JStr s) = Some s"
| "text_of _ = None"

text \<open>
  The handler after the signature check: the event is read and a captured payment
  activates the subscription of the user its notes name. \<open>Inl\<close> is an exception on the
  way.
\<close>

definition bind_throw :: "string + 'a \<Rightarrow> ('a \<Rightarrow> string + 'b) \<Rightarrow> string + 'b" where
  "bind_throw r f = (case r of Inl e \<Rightarrow> Inl e | Inr v \<Rightarrow> f v)"

definition webhook_event :: "calendar \<Rightarrow> instant \<Rightarrow> json \<Rightarrow> db \<Rightarrow> string + db" where
  "webhook_event cal now event d =
     bind_throw (get_prop event ''event'') (\<lambda>eventType.
       if eventType = JStr ''payment.captured'' \<or> eventType = JStr ''payment.failed'' then
         bind_throw (get_prop event ''payload'') (\<lambda>payload.
         bind_throw (get_prop payload ''payment'') (\<lambda>pay.
         bind_throw (get_prop pay ''entity'') (\<lambda>payment.
         bind_throw (get_prop payment ''notes'') (\<lambda>notes.
         bind_throw (if notes = JUndefined \<or> notes = JNull then Inr JUndefined
                     else get_prop notes ''user_id'') (\<lambda>userId.
           if eventType = JStr ''payment.captured'' \<and> truthy userId then
             bind_throw (get_prop payment ''id'') (\<lambda>pid.
             bind_throw (get_prop payment ''order_id'') (\<lambda>oid.
               (case text_of userId of
                  None \<Rightarrow> Inr d
                | Some uid \<Rightarrow>
                    Inr (upsert_subscription uid now
                           (\<lambda>r. r\<lparr>us_plan := ''pro'', us_status := ''active'',
                                   us_razorpay_payment_id := text_of pid,
                                   us_razorpay_subscription_id := text_of oid,
                                   us_current_period_start := Some now,
                                   us_current_period_end := Some (addMonths cal 1 now)\<rparr>)
                           d))))
           else Inr d)))))
       else Inr d)"

text \<open>\<open>JSON.parse\<close> is an input: \<open>parse s\<close> is the value, or \<open>None\<close> for a syntax error.\<close>

definition razorpay_webhook ::
    "(bytes \<Rightarrow> bytes \<Rightarrow> bytes) \<Rightarrow> (string \<Rightarrow> json option) \<Rightarrow> calendar \<Rightarrow> instant
     \<Rightarrow> string option \<Rightarrow> string \<Rightarrow> string option \<Rightarrow> db \<Rightarrow> response \<times> db" where
  "razorpay_webhook hmac parse cal now RAZORPAY_KEY_SECRET bdy signature_header d =
     (let thrown = (\<lambda>msg. \<lparr>status = 500, body = JObj [(''error'', JStr msg)]\<rparr>)
      in case RAZORPAY_KEY_SECRET of
           None \<Rightarrow> (thrown ''Razorpay secret not configured'', d)
         | Some secret \<Rightarrow>
             if secret = [] then (thrown ''Razorpay secret not configured'', d)
             else
               (let signature = (case signature_header of None \<Rightarrow> [] | Some h \<Rightarrow> h)
                in if \<not> verifyWebhookSignature hmac bdy signature secret
                   then (\<lparr>status = 400, body = JObj [(''error'', JStr ''Invalid signature'')]\<rparr>, d)
                   else
                     (case parse bdy of
                        None \<Rightarrow> (thrown ''Unexpected token'', d)
                      | Some event \<Rightarrow>
                          (case webhook_event cal now event d of
                             Inl e \<Rightarrow> (thrown e, d)
                           | Inr d1 \<Rightarrow> (ok_response (JObj [(''status'', JStr ''ok'')]), d1)))))"

subsection \<open>\<open>useSubscription\<close>\<close>

datatype plan_t = Free | Pro

text \<open>The state of the hook that \<open>incrementUsage\<close> closes over.\<close>

record hook_state =
  hs_user :: "uuid option"
  hs_plan :: plan_t
  hs_messagesUsedToday :: int

definition FREE_MSG_LIMIT :: int where
  "FREE_MSG_LIMIT = 10"

definition canSendMessage :: "hook_state \<Rightarrow> bool" where
  "canSendMessage h = (hs_plan h = Pro \<or> hs_messagesUsedToday h < FREE_MSG_LIMIT)"

text \<open>
  \<open>upsert(row, {onConflict: 'user_id,usage_date'})\<close> on \<open>daily_usage\<close>. The call can fail
  (the network, a policy of the table); \<open>storage_ok\<close> says whether it goes through, and a
  failed call leaves the table as it was and returns an error.
\<close>

definition upsert_daily_usage ::
    "bool \<Rightarrow> daily_usage_row \<Rightarrow> db \<Rightarrow> string option \<times> db" where
  "upsert_daily_usage storage_ok row d =
     (if \<not> storage_ok then (Some ''error'', d)
      else if (du_user_id row, du_usage_date row)
                \<in> set (map (\<lambda>r. (du_user_id r, du_usage_date r)) (daily_usage d))
      then (None, d\<lparr>daily_usage :=
                       map (\<lambda>r. if du_user_id r = du_user_id row \<and>
                                    du_usage_date r = du_usage_date row
                                 then r\<lparr>du_messages_sent := du_messages_sent row\<rparr> else r)
                           (daily_usage d)\<rparr>)
      else (None, d\<lparr>daily_usage := daily_usage d @ [row]\<rparr>))"

text \<open>
  \<open>incrementUsage\<close>: the answer (the send is accepted), the state of the hook and the
  database after the call. \<open>today\<close> is the date of the clock.
\<close>

definition incrementUsage ::
    "string \<Rightarrow> bool \<Rightarrow> hook_state \<Rightarrow> db \<Rightarrow> bool \<times> hook_state \<times> db" where
  "incrementUsage today storage_ok h d =
     (case hs_user h of
        None \<Rightarrow> (False, h, d)
      | Some uid \<Rightarrow>
          if hs_plan h = Pro then (True, h, d)
          else if hs_messagesUsedToday h \<ge> FREE_MSG_LIMIT then (False, h, d)
          else
            (let newCount = hs_messagesUsedToday h + 1;
                 (error, d1) = upsert_daily_usage storage_ok
                                 \<lparr>du_user_id = uid, du_usage_date = today,
                                  du_messages_sent = newCount\<rparr> d
             in if error = None
                then (True, h\<lparr>hs_messagesUsedToday := newCount\<rparr>, d1)
                else (False, h, d1)))"

section \<open>Notions used to state the properties\<close>

text \<open>
  The header lines of an input, what the parser reads off one, the messages a run has
  started (those pushed and the one in flight), and the order a \<open>Set\<close> hands its
  elements back in.
\<close>

definition is_header :: "jsstring \<Rightarrow> bool" where
  "is_header line = (match_header line \<noteq> None)"

definition header_sender :: "jsstring \<Rightarrow> jsstring" where
  "header_sender line =
     (case match_header line of None \<Rightarrow> [] | Some (dateStr, timeStr, sender0, txt) \<Rightarrow> trim sender0)"

definition header_is_system :: "jsstring \<Rightarrow> bool" where
  "header_is_system line =
     (case match_header line of
        None \<Rightarrow> False
      | Some (dateStr, timeStr, sender0, txt) \<Rightarrow> isSystemMessage (trim txt))"

definition started :: "'u parse_vars \<Rightarrow> 'u ParsedMessage list" where
  "started v = messages_v v @ (case currentMsg v of None \<Rightarrow> [] | Some m \<Rightarrow> [m])"

definition run_lines :: "(nat \<Rightarrow> 'u) \<Rightarrow> jsstring list \<Rightarrow> 'u parse_vars" where
  "run_lines uuid ls = foldl (parse_line uuid) parse_init ls"

definition first_seen :: "'a list \<Rightarrow> 'a list" where
  "first_seen xs = foldl (\<lambda>acc x. set_add x acc) [] xs"

text \<open>The invariant of the loop that ties \<open>participantSet\<close> to the messages pushed.\<close>

definition participants_ok :: "'u parse_vars \<Rightarrow> bool" where
  "participants_ok v =
     (participantSet v = first_seen (map sender (filter (\<lambda>m. \<not> isSystem m) (messages_v v))))"

text \<open>An example input: the notice that opens an export.\<close>

definition encryption_notice_line :: jsstring where
  "encryption_notice_line =
     js ''12/03/24, 9:00 am - Alice: Messages and calls are end-to-end encrypted''"

text \<open>The two-message scenario and its first message as the header line leaves it.\<close>

definition scenario_chat :: jsstring where
  "scenario_chat =
     js ''12/03/24, 9:15 am - Alice: hi\<newline>there\<newline>12/03/24, 9:16 am - Bob: hello''"

definition alice_hi :: "nat ParsedMessage" where
  "alice_hi =
     \<lparr>msg_id = 0,
      timestamp = \<lparr>year = Some 2024, month = Some 11, day = Some 3, hours = Some 9,
                   minutes = Some 15\<rparr>,
      sender = js ''Alice'', msg_text = js ''hi'', isSystem = False\<rparr>"

text \<open>
  Databases and codes used as examples, and the conditions and answers of
  \<open>validate-promo\<close> in the words of the specification.
\<close>

definition free_promo :: promo_code where
  "free_promo =
     \<lparr>pc_id = ''p1'', pc_code = ''FREE100'', pc_discount_type = ''percentage'',
      pc_discount_value = 100, pc_max_uses = Some 1, pc_times_used = 1,
      pc_valid_from = 0, pc_valid_until = None, pc_plan_duration = ''month'',
      pc_is_active = True\<rparr>"

definition db_redeemed :: db where
  "db_redeemed =
     \<lparr>promo_codes = [free_promo],
      promo_redemptions = [\<lparr>pr_promo_code_id = ''p1'', pr_user_id = ''u1''\<rparr>],
      user_subscriptions = [], daily_usage = []\<rparr>"

definition promo_usable :: "instant \<Rightarrow> uuid \<Rightarrow> db \<Rightarrow> promo_code \<Rightarrow> bool" where
  "promo_usable now user d p =
     ((\<forall>u. pc_valid_until p = Some u \<longrightarrow> now \<le> u) \<and>
      (\<forall>m. pc_max_uses p = Some m \<longrightarrow> m = 0 \<or> pc_times_used p < m) \<and>
      (\<forall>r \<in> set (promo_redemptions d).
          \<not> (pr_promo_code_id r = pc_id p \<and> pr_user_id r = user)))"

definition invalid_body :: "string \<Rightarrow> (string \<times> json) list" where
  "invalid_body reason = [(''valid'', JBool False), (''error'', JStr reason)]"

definition terms_body :: "promo_code \<Rightarrow> (string \<times> json) list" where
  "terms_body promo =
     [(''valid'', JBool True),
      (''discount_type'', JStr (pc_discount_type promo)),
      (''discount_value'', JNum (pc_discount_value promo)),
      (''plan_duration'', JStr (pc_plan_duration promo)),
      (''promo_id'', JStr (pc_id promo))]"

definition future_promo :: promo_code where
  "future_promo =
     \<lparr>pc_id = ''p2'', pc_code = ''EARLY'', pc_discount_type = ''percentage'',
      pc_discount_value = 100, pc_max_uses = None, pc_times_used = 0,
      pc_valid_from = 2000, pc_valid_until = None, pc_plan_duration = ''year'',
      pc_is_active = True\<rparr>"

definition db_future :: db where
  "db_future =
     \<lparr>promo_codes = [future_promo], promo_redemptions = [],
      user_subscriptions = [], daily_usage = []\<rparr>"

definition half_promo :: promo_code where
  "half_promo =
     \<lparr>pc_id = ''p3'', pc_code = ''HALF'', pc_discount_type = ''percentage'',
      pc_discount_value = 50, pc_max_uses = None, pc_times_used = 0,
      pc_valid_from = 0, pc_valid_until = None, pc_plan_duration = ''month'',
      pc_is_active = True\<rparr>"

definition db_half :: db where
  "db_half =
     \<lparr>promo_codes = [half_promo, future_promo], promo_redemptions = [],
      user_subscriptions = [], daily_usage = []\<rparr>"

definition cal0 :: calendar where
  "cal0 = \<lparr>addDays = (\<lambda>n t. t + n * 86400000), addMonths = (\<lambda>n t. t + n * 2592000000),
            addYears = (\<lambda>n t. t + n * 31536000000)\<rparr>"

definition db_empty :: db where
  "db_empty = \<lparr>promo_codes = [], promo_redemptions = [], user_subscriptions = [],
               daily_usage = []\<rparr>"

text \<open>
  The signature a webhook request carries (\<open>req.headers.get(...) || ''\<close>) and a
  \<open>JSON.parse\<close> that reads every body as one event, for the examples.
\<close>

definition signature_or_empty :: "string option \<Rightarrow> string" where
  "signature_or_empty h = (case h of None \<Rightarrow> [] | Some s \<Rightarrow> s)"

definition parse_ping :: "string \<Rightarrow> json option" where
  "parse_ping s = Some (JObj [(''event'', JStr ''ping'')])"

text \<open>The groups a pattern closes on every path through it (those outside \<open>(?:...)?\<close>).\<close>

fun top_closes :: "regex \<Rightarrow> nat set" where
  "top_closes [] = {}"
| "top_closes (GroupClose k # r) = insert k (top_closes r)"
| "top_closes (x # r) = top_closes r"

section \<open>Properties of the parser\<close>

lemmas rx_defs = js_def isDigit_def isSpace_def isLineTerminator_def canonicalize_def trim_def
  split_def dec_def exec_def test_def replace_empty_def lit_def lit_i_def opt1_def star_def
  plus1_def plus_lazy_def rep_def

lemmas parse_defs = parseWhatsAppChat_def lines_of_def parse_lines_def parse_init_def parse_line_def
  push_current_def set_add_def match_header_def WHATSAPP_REGEX_def isSystemMessage_def
  SYSTEM_PATTERNS_def parseTimestamp_def parseInt_at_def parseInt_def Number_def
  numeral_value_def digitValue_def isHexDigit_def num_gt_def num_lt_def num_add_def

text \<open>
  A match of the header pattern has captured all four groups, so a line is a header
  exactly when the pattern matches it.
\<close>

lemma top_closes_append: "top_closes r \<subseteq> top_closes (g @ r)"
  by (induction g rule: top_closes.induct) auto

lemma rx_caps:
  "rx r i s opens caps = Some (caps', e) \<Longrightarrow>
   fst ` set caps \<union> top_closes r \<subseteq> fst ` set caps'"
proof (induction r i s opens caps arbitrary: caps' e rule: rx.induct)
  case (1 i s opens caps)
  then show ?case by simp
next
  case (2 c r i s opens caps)
  show ?case using "2.prems" "2.IH"
    apply (subst (asm) rx.simps)
    apply (simp del: rx.simps split: list.splits if_splits)
    done
next
  case (3 lo hi greedy c r i s opens caps)
  show ?case using "3.prems" "3.IH"
    apply (subst (asm) rx.simps)
    apply (simp del: rx.simps split: if_splits list.splits option.splits)
    done
next
  case (4 g r i s opens caps)
  show ?case
  proof (cases "rx (g @ r) i s opens caps")
    case None
    then show ?thesis using "4.prems" "4.IH"(2)
      apply (subst (asm) rx.simps(4))
      apply (simp del: rx.simps)
      done
  next
    case (Some m)
    then have "rx (g @ r) i s opens caps = Some (caps', e)"
      using "4.prems"
      apply (subst (asm) rx.simps(4))
      apply (simp del: rx.simps)
      done
    then have "fst ` set caps \<union> top_closes (g @ r) \<subseteq> fst ` set caps'"
      by (rule "4.IH"(1))
    then show ?thesis using top_closes_append [of r g] by auto
  qed
next
  case (5 k r i s opens caps)
  show ?case using "5.prems" "5.IH"
    apply (subst (asm) rx.simps)
    apply (simp del: rx.simps)
    done
next
  case (6 k r i s opens caps)
  show ?case using "6.prems" "6.IH"
    apply (subst (asm) rx.simps)
    apply (simp del: rx.simps split: option.splits)
    done
next
  case (7 r i s opens caps)
  show ?case using "7.prems" "7.IH"
    apply (subst (asm) rx.simps)
    apply (simp del: rx.simps split: if_splits)
    done
next
  case (8 r i s opens caps)
  show ?case using "8.prems" "8.IH"
    apply (subst (asm) rx.simps)
    apply (simp del: rx.simps split: if_splits)
    done
qed


lemma exec_from_caps:
  "exec_from r i s = Some (b, caps, e) \<Longrightarrow> top_closes r \<subseteq> fst ` set caps"
proof (induction r i s rule: exec_from.induct)
  case (1 r i s)
  show ?case
  proof (cases "rx r i s [] []")
    case None
    then show ?thesis using "1.prems" "1.IH"
      apply (subst (asm) exec_from.simps)
      apply (simp del: exec_from.simps split: list.splits)
      done
  next
    case (Some m)
    then have "rx r i s [] [] = Some (caps, e)"
      using "1.prems"
      apply (subst (asm) exec_from.simps)
      apply (auto simp del: exec_from.simps)
      done
    then show ?thesis using rx_caps [of r i s "[]" "[]" caps e] by simp
  qed
qed

lemma match_header_iff_exec:
  "(match_header line \<noteq> None) = (exec WHATSAPP_REGEX line \<noteq> None)"
proof (cases "exec WHATSAPP_REGEX line")
  case None
  then show ?thesis by (simp add: match_header_def)
next
  case (Some m)
  obtain b caps e where m: "m = (b, caps, e)" by (cases m) auto
  have "top_closes WHATSAPP_REGEX \<subseteq> fst ` set caps"
    using Some m exec_from_caps [of WHATSAPP_REGEX 0 line b caps e] by (simp add: exec_def)
  then have "{1, 2, 3, 4} \<subseteq> fst ` set caps"
    by (simp add: WHATSAPP_REGEX_def opt1_def rep_def plus1_def star_def plus_lazy_def)
  then have "map_of caps 1 \<noteq> None" "map_of caps 2 \<noteq> None" "map_of caps 3 \<noteq> None"
      "map_of caps 4 \<noteq> None"
    by (simp_all add: map_of_eq_None_iff)
  then show ?thesis using Some m
    by (auto simp: match_header_def)
qed

lemma push_current_started: "messages_v (push_current v) = started v"
  by (simp add: push_current_def started_def split: option.splits)

lemma push_current_fields:
  "preview_v (push_current v) = preview_v v" "lineCount (push_current v) = lineCount v"
  "uuidCalls (push_current v) = uuidCalls v"
  by (simp_all add: push_current_def split: option.splits)

lemma first_seen_snoc: "first_seen (xs @ [x]) = set_add x (first_seen xs)"
  by (simp add: first_seen_def)

lemma push_current_participants: "participants_ok v \<Longrightarrow> participants_ok (push_current v)"
  by (simp add: participants_ok_def push_current_def first_seen_snoc split: option.splits)

lemma parse_line_participants: "participants_ok v \<Longrightarrow> participants_ok (parse_line uuid v l)"
proof -
  assume a: "participants_ok v"
  define v1 where "v1 = (if lineCount v < 30
            then v\<lparr>preview_v := preview_v v @ [l], lineCount := lineCount v + 1\<rparr> else v)"
  have b: "participants_ok v1" using a by (simp add: participants_ok_def v1_def)
  have c: "participants_ok (push_current v1)" by (rule push_current_participants [OF b])
  show ?thesis
  proof (cases "match_header l")
    case None
    then show ?thesis using b
      by (simp add: parse_line_def participants_ok_def v1_def [symmetric] split: option.splits)
  next
    case (Some h)
    then show ?thesis using c
      by (cases h) (simp add: parse_line_def participants_ok_def Let_def v1_def [symmetric])
  qed
qed

lemma parse_line_started_header:
  assumes "match_header l = Some (d, t, s, b)"
  shows "started (parse_line uuid v l) =
           started v @ [\<lparr>msg_id = uuid (uuidCalls v), timestamp = parseTimestamp d t,
                          sender = trim s, msg_text = trim b,
                          isSystem = isSystemMessage (trim b)\<rparr>]"
  using assms
  by (simp add: parse_line_def Let_def started_def push_current_def split: option.splits)

lemma parse_line_started_other:
  assumes "match_header l = None"
  shows "map sender (started (parse_line uuid v l)) = map sender (started v)"
    and "map isSystem (started (parse_line uuid v l)) = map isSystem (started v)"
  using assms
  by (simp_all add: parse_line_def Let_def started_def split: option.splits)

lemma run_lines_snoc: "run_lines uuid (ls @ [l]) = parse_line uuid (run_lines uuid ls) l"
  by (simp add: run_lines_def)

lemma run_lines_started:
  "map sender (started (run_lines uuid ls)) = map header_sender (filter is_header ls) \<and>
   map isSystem (started (run_lines uuid ls)) = map header_is_system (filter is_header ls)"
proof (induction ls rule: rev_induct)
  case Nil
  then show ?case by (simp add: run_lines_def parse_init_def started_def)
next
  case (snoc l ls)
  show ?case
  proof (cases "match_header l")
    case None
    then show ?thesis using snoc
      by (simp add: run_lines_snoc is_header_def parse_line_started_other [OF None])
  next
    case (Some h)
    obtain d t s b where h: "h = (d, t, s, b)" by (cases h) auto
    have m: "match_header l = Some (d, t, s, b)" using Some h by simp
    show ?thesis using snoc m
      by (simp add: run_lines_snoc is_header_def header_sender_def header_is_system_def
            parse_line_started_header [OF m])
  qed
qed

lemma run_lines_participants: "participants_ok (run_lines uuid ls)"
  by (induction ls rule: rev_induct)
     (simp_all add: run_lines_snoc parse_line_participants,
      simp add: run_lines_def parse_init_def participants_ok_def first_seen_def)

lemma parse_line_preview:
  "preview_v (parse_line uuid v l) = (if lineCount v < 30 then preview_v v @ [l] else preview_v v)"
  "lineCount (parse_line uuid v l) = (if lineCount v < 30 then lineCount v + 1 else lineCount v)"
  by (simp_all add: parse_line_def Let_def push_current_fields split: option.splits prod.splits)

lemma run_lines_preview:
  "preview_v (run_lines uuid ls) = take 30 ls \<and> lineCount (run_lines uuid ls) = min 30 (length ls)"
proof (induction ls rule: rev_induct)
  case Nil
  then show ?case by (simp add: run_lines_def parse_init_def)
next
  case (snoc l ls)
  then show ?case by (auto simp: run_lines_snoc parse_line_preview min_def)
qed

lemma filter_map_key:
  "map p xs = map q ys \<Longrightarrow> map f xs = map g ys \<Longrightarrow>
   map f (filter (\<lambda>x. \<not> p x) xs) = map g (filter (\<lambda>y. \<not> q y) ys)"
proof (induction xs arbitrary: ys)
  case Nil
  then show ?case by simp
next
  case (Cons x xs)
  then obtain y ys' where "ys = y # ys'" by (cases ys) auto
  with Cons show ?case by auto
qed


lemma nth_filter_take:
  assumes "i < length ls" "P (ls ! i)"
  shows "length (filter P (take i ls)) < length (filter P ls) \<and>
         filter P ls ! length (filter P (take i ls)) = ls ! i"
proof -
  have "ls = take i ls @ ls ! i # drop (Suc i) ls"
    using assms(1) by (simp add: id_take_nth_drop)
  then have "filter P ls = filter P (take i ls) @ ls ! i # filter P (drop (Suc i) ls)"
    using assms(2) by (metis filter.simps(2) filter_append)
  then show ?thesis by (simp add: nth_append)
qed

lemma parse_lines_messages:
  "messages (parse_lines uuid ls) = filter (\<lambda>m. \<not> isSystem m) (started (run_lines uuid ls))"
  by (simp add: parse_lines_def Let_def push_current_started run_lines_def)

lemma parse_lines_participants:
  "participants (parse_lines uuid ls) = first_seen (map sender (messages (parse_lines uuid ls)))"
  using push_current_participants [OF run_lines_participants, of uuid ls]
  by (simp add: parse_lines_def Let_def participants_ok_def run_lines_def)

lemma parse_lines_preview: "preview (parse_lines uuid ls) = take 30 ls"
  using run_lines_preview [of uuid ls]
  by (simp add: parse_lines_def Let_def push_current_fields run_lines_def)

text \<open>
  Claim C8, as amended. Take a line of the input that is a header whose trimmed body
  matches a system pattern. The message started at that line (message number \<open>k\<close> of the
  run, \<open>k\<close> being the number of headers before it) keeps its trimmed sender and is flagged
  as system; the result holds exactly the started messages that are not flagged, so this
  one is left out; the senders in the result are those of the headers that are not
  system, in order; the participants are the senders of the messages of the result, in
  order of first appearance, so a system message adds none; and the preview is the first
  30 lines of the input, whatever they are, so the line is in it when it is one of the
  first 30.
\<close>

theorem system_messages_filtered:
  assumes "ls = lines_of content"
    and "i < length ls"
    and "match_header (ls ! i) = Some (d, t, s, b)"
    and "isSystemMessage (trim b)"
  shows "length (filter is_header (take i ls)) < length (started (run_lines uuid ls)) \<and>
         isSystem (started (run_lines uuid ls) ! length (filter is_header (take i ls))) \<and>
         sender (started (run_lines uuid ls) ! length (filter is_header (take i ls))) = trim s \<and>
         messages (parseWhatsAppChat uuid content)
           = filter (\<lambda>m. \<not> isSystem m) (started (run_lines uuid ls)) \<and>
         map sender (messages (parseWhatsAppChat uuid content))
           = map header_sender (filter (\<lambda>l. \<not> header_is_system l) (filter is_header ls)) \<and>
         participants (parseWhatsAppChat uuid content)
           = first_seen (map sender (messages (parseWhatsAppChat uuid content))) \<and>
         preview (parseWhatsAppChat uuid content) = take 30 ls \<and>
         (i < 30 \<longrightarrow> ls ! i \<in> set (preview (parseWhatsAppChat uuid content)))"
proof -
  let ?k = "length (filter is_header (take i ls))"
  let ?all = "started (run_lines uuid ls)"
  have hd: "is_header (ls ! i)" using assms(3) by (simp add: is_header_def)
  have k: "?k < length (filter is_header ls)" "filter is_header ls ! ?k = ls ! i"
    using nth_filter_take [of i ls is_header] assms(2) hd by simp_all
  have ms: "map sender ?all = map header_sender (filter is_header ls)"
    and mi: "map isSystem ?all = map header_is_system (filter is_header ls)"
    using run_lines_started [of uuid ls] by simp_all
  have len: "length ?all = length (filter is_header ls)"
    using ms by (metis length_map)
  have kl: "?k < length ?all" using k(1) len by simp
  have "isSystem (?all ! ?k) = (map isSystem ?all) ! ?k" using kl by simp
  also have "\<dots> = header_is_system (ls ! i)" using k mi by simp
  finally have sys: "isSystem (?all ! ?k)"
    using assms(3,4) by (simp add: header_is_system_def)
  have "sender (?all ! ?k) = (map sender ?all) ! ?k" using kl by simp
  also have "\<dots> = header_sender (ls ! i)" using k ms by simp
  finally have snd: "sender (?all ! ?k) = trim s"
    using assms(3) by (simp add: header_sender_def)
  have r: "parseWhatsAppChat uuid content = parse_lines uuid ls"
    using assms(1) by (simp add: parseWhatsAppChat_def)
  have m: "messages (parse_lines uuid ls) = filter (\<lambda>m. \<not> isSystem m) ?all"
    by (rule parse_lines_messages)
  have m2: "map sender (messages (parse_lines uuid ls))
              = map header_sender (filter (\<lambda>l. \<not> header_is_system l) (filter is_header ls))"
    unfolding m by (rule filter_map_key [OF mi ms])
  have pv: "i < 30 \<longrightarrow> ls ! i \<in> set (take 30 ls)"
    using assms(2) by (auto simp: in_set_conv_nth intro!: exI [of _ i])
  show ?thesis
    unfolding r using kl sys snd m m2 pv parse_lines_participants [of uuid ls]
    by (simp add: parse_lines_preview)
qed


lemma encryption_notice_header:
  "match_header encryption_notice_line =
     Some (js ''12/03/24'', js ''9:00 am'', js ''Alice'',
           js ''Messages and calls are end-to-end encrypted'')"
  by (simp add: encryption_notice_line_def match_header_def WHATSAPP_REGEX_def rx_defs)

lemma encryption_notice_system:
  "isSystemMessage (trim (js ''Messages and calls are end-to-end encrypted''))"
  by (simp add: isSystemMessage_def SYSTEM_PATTERNS_def rx_defs)

lemma split_newlines: "lines_of (replicate n 10 @ l) = replicate n [] @ lines_of l"
  by (induction n) (simp_all add: lines_of_def split_def)

lemma split_no_newline: "10 \<notin> set l \<Longrightarrow> split_acc (\<lambda>c. c = 10) acc l = [rev acc @ l]"
  by (induction l arbitrary: acc) auto

text \<open>
  Claim C8 as stated fails for a system message past the preview: after 30 empty lines,
  the notice is line 31; it is a header with a system body, and it is not in the preview.
\<close>

theorem system_line_beyond_preview:
  "match_header encryption_notice_line =
     Some (js ''12/03/24'', js ''9:00 am'', js ''Alice'',
           js ''Messages and calls are end-to-end encrypted'') \<and>
   isSystemMessage (trim (js ''Messages and calls are end-to-end encrypted'')) \<and>
   lines_of (replicate 30 10 @ encryption_notice_line) ! 30 = encryption_notice_line \<and>
   encryption_notice_line
     \<notin> set (preview (parseWhatsAppChat (id :: nat \<Rightarrow> nat)
                       (replicate 30 10 @ encryption_notice_line)))"
proof -
  have nl: "10 \<notin> set encryption_notice_line"
    by (simp add: encryption_notice_line_def js_def)
  have sp: "lines_of (replicate 30 10 @ encryption_notice_line)
              = replicate 30 [] @ [encryption_notice_line]"
    using split_no_newline [OF nl, of "[]"] by (simp add: split_newlines) (simp add: lines_of_def split_def)
  have ne: "encryption_notice_line \<noteq> []"
    by (simp add: encryption_notice_line_def js_def)
  have pv: "preview (parseWhatsAppChat (id :: nat \<Rightarrow> nat)
                       (replicate 30 10 @ encryption_notice_line)) = replicate 30 []"
    by (simp add: parseWhatsAppChat_def sp parse_lines_preview)
  have nth: "(replicate 30 [] @ [encryption_notice_line]) ! 30 = encryption_notice_line"
    by (simp add: nth_append)
  show ?thesis
    using ne by (simp add: encryption_notice_header encryption_notice_system sp nth pv)
qed

text \<open>
  The scenario of claim C8: the notice alone gives no message and no participant, and
  stays in the preview.
\<close>

theorem system_messages_filtered_witness:
  "0 < length (lines_of encryption_notice_line) \<and>
   match_header (lines_of encryption_notice_line ! 0) =
     Some (js ''12/03/24'', js ''9:00 am'', js ''Alice'',
           js ''Messages and calls are end-to-end encrypted'') \<and>
   isSystemMessage (trim (js ''Messages and calls are end-to-end encrypted'')) \<and>
   messages (parseWhatsAppChat (id :: nat \<Rightarrow> nat) encryption_notice_line) = [] \<and>
   participants (parseWhatsAppChat (id :: nat \<Rightarrow> nat) encryption_notice_line) = [] \<and>
   preview (parseWhatsAppChat (id :: nat \<Rightarrow> nat) encryption_notice_line)
     = [encryption_notice_line]"
proof -
  have nl: "10 \<notin> set encryption_notice_line"
    by (simp add: encryption_notice_line_def js_def)
  have sp: "lines_of encryption_notice_line = [encryption_notice_line]"
    using split_no_newline [OF nl, of "[]"] by (simp add: lines_of_def split_def)
  have h2: "0 < length (lines_of encryption_notice_line)" by (simp add: sp)
  have h3: "match_header (lines_of encryption_notice_line ! 0) =
     Some (js ''12/03/24'', js ''9:00 am'', js ''Alice'',
           js ''Messages and calls are end-to-end encrypted'')"
    by (simp add: sp encryption_notice_header)
  note c = system_messages_filtered [OF refl h2 h3 encryption_notice_system,
      of "id :: nat \<Rightarrow> nat"]
  have hs: "header_is_system encryption_notice_line"
    by (simp add: header_is_system_def encryption_notice_header encryption_notice_system)
  have "map sender (messages (parseWhatsAppChat (id :: nat \<Rightarrow> nat) encryption_notice_line))
     = map header_sender (filter (\<lambda>l. \<not> header_is_system l)
         (filter is_header (lines_of encryption_notice_line)))"
    using c by (elim conjE)
  then have m: "map sender (messages (parseWhatsAppChat (id :: nat \<Rightarrow> nat) encryption_notice_line)) = []"
    using hs by (simp add: sp)
  then have m': "messages (parseWhatsAppChat (id :: nat \<Rightarrow> nat) encryption_notice_line) = []"
    by simp
  have p: "participants (parseWhatsAppChat (id :: nat \<Rightarrow> nat) encryption_notice_line) = []"
    using c m' by (simp add: first_seen_def)
  have v: "preview (parseWhatsAppChat (id :: nat \<Rightarrow> nat) encryption_notice_line)
     = [encryption_notice_line]"
    using c by (simp add: sp)
  show ?thesis using h2 h3 encryption_notice_system m' p v by simp
qed

text \<open>
  Claim C10 as stated fails: \<open>''.split('\n')\<close> is one empty line, and the preview of the
  empty input holds it.
\<close>

theorem empty_input_preview_not_empty:
  "preview (parseWhatsAppChat (id :: nat \<Rightarrow> nat) []) \<noteq> []"
  by (simp add: parse_defs rx_defs)

text \<open>
  Claim C10, as amended: the empty input gives no message, no participant, and a preview
  of one empty line.
\<close>

theorem empty_input_result:
  "parseWhatsAppChat uuid [] = \<lparr>messages = [], participants = [], preview = [[]]\<rparr>"
  by (simp add: parse_defs rx_defs)

lemma continuation_step:
  assumes "currentMsg v = Some m" "match_header line = None" "trim line \<noteq> []"
  shows "currentMsg (parse_line uuid v line) = Some (m\<lparr>msg_text := msg_text m @ [10] @ line\<rparr>)"
    and "messages_v (parse_line uuid v line) = messages_v v"
    and "participantSet (parse_line uuid v line) = participantSet v"
  using assms by (simp_all add: parse_line_def Let_def)

lemma continuation_run:
  assumes h: "match_header h = Some (d, t, s, b)"
    and cs: "\<forall>l \<in> set cs. match_header l = None \<and> trim l \<noteq> []"
  shows "messages_v (run_lines uuid (h # cs)) = [] \<and>
         currentMsg (run_lines uuid (h # cs)) =
           Some \<lparr>msg_id = uuid 0, timestamp = parseTimestamp d t, sender = trim s,
                 msg_text = trim b @ concat (map (\<lambda>l. 10 # l) cs),
                 isSystem = isSystemMessage (trim b)\<rparr>"
  using cs
proof (induction cs rule: rev_induct)
  case Nil
  show ?case using h
    by (simp add: run_lines_def parse_line_def parse_init_def push_current_def Let_def)
next
  case (snoc l cs)
  then have ih: "messages_v (run_lines uuid (h # cs)) = []"
      "currentMsg (run_lines uuid (h # cs)) =
           Some \<lparr>msg_id = uuid 0, timestamp = parseTimestamp d t, sender = trim s,
                 msg_text = trim b @ concat (map (\<lambda>l. 10 # l) cs),
                 isSystem = isSystemMessage (trim b)\<rparr>"
    and l: "match_header l = None" "trim l \<noteq> []"
    by simp_all
  have r: "run_lines uuid (h # cs @ [l]) = parse_line uuid (run_lines uuid (h # cs)) l"
    using run_lines_snoc [of uuid "h # cs" l] by simp
  show ?case
    unfolding r using continuation_step [OF ih(2) l, of uuid] ih(1) by simp
qed


lemma scenario_result:
  "parseWhatsAppChat uuid scenario_chat =
     \<lparr>messages =
        [\<lparr>msg_id = uuid 0,
          timestamp = \<lparr>year = Some 2024, month = Some 11, day = Some 3, hours = Some 9,
                       minutes = Some 15\<rparr>,
          sender = js ''Alice'', msg_text = js ''hi\<newline>there'', isSystem = False\<rparr>,
         \<lparr>msg_id = uuid 1,
          timestamp = \<lparr>year = Some 2024, month = Some 11, day = Some 3, hours = Some 9,
                       minutes = Some 16\<rparr>,
          sender = js ''Bob'', msg_text = js ''hello'', isSystem = False\<rparr>],
      participants = [js ''Alice'', js ''Bob''],
      preview = [js ''12/03/24, 9:15 am - Alice: hi'', js ''there'',
                 js ''12/03/24, 9:16 am - Bob: hello'']\<rparr>"
  by (simp add: scenario_chat_def parse_defs rx_defs)

text \<open>
  Claim C7. The scenario input parses to the two messages Alice, \<open>hi\<newline>there\<close>, 09:15 and
  Bob, \<open>hello\<close>, 09:16 with the participants Alice, Bob. In general, in any state of the
  loop with a message in flight, a line that is no header and is not blank is appended to
  the body of that message after a newline, and nothing is pushed; so a header that is
  not a system notice, followed by such lines only, gives one message whose body is the
  trimmed header body and then each line after a newline.
\<close>

theorem multiline_messages:
  "parseWhatsAppChat uuid scenario_chat =
     \<lparr>messages =
        [\<lparr>msg_id = uuid 0,
          timestamp = \<lparr>year = Some 2024, month = Some 11, day = Some 3, hours = Some 9,
                       minutes = Some 15\<rparr>,
          sender = js ''Alice'', msg_text = js ''hi\<newline>there'', isSystem = False\<rparr>,
         \<lparr>msg_id = uuid 1,
          timestamp = \<lparr>year = Some 2024, month = Some 11, day = Some 3, hours = Some 9,
                       minutes = Some 16\<rparr>,
          sender = js ''Bob'', msg_text = js ''hello'', isSystem = False\<rparr>],
      participants = [js ''Alice'', js ''Bob''],
      preview = [js ''12/03/24, 9:15 am - Alice: hi'', js ''there'',
                 js ''12/03/24, 9:16 am - Bob: hello'']\<rparr> \<and>
   (\<forall>v m line.
      currentMsg v = Some m \<and> match_header line = None \<and> trim line \<noteq> [] \<longrightarrow>
      currentMsg (parse_line uuid v line) = Some (m\<lparr>msg_text := msg_text m @ [10] @ line\<rparr>) \<and>
      messages_v (parse_line uuid v line) = messages_v v \<and>
      participantSet (parse_line uuid v line) = participantSet v) \<and>
   (\<forall>h d t s b cs.
      match_header h = Some (d, t, s, b) \<and> \<not> isSystemMessage (trim b) \<and>
      (\<forall>l \<in> set cs. match_header l = None \<and> trim l \<noteq> []) \<longrightarrow>
      messages (parse_lines uuid (h # cs)) =
        [\<lparr>msg_id = uuid 0, timestamp = parseTimestamp d t, sender = trim s,
          msg_text = trim b @ concat (map (\<lambda>l. 10 # l) cs), isSystem = False\<rparr>])"
proof (intro conjI allI impI)
  show "parseWhatsAppChat uuid scenario_chat =
     \<lparr>messages =
        [\<lparr>msg_id = uuid 0,
          timestamp = \<lparr>year = Some 2024, month = Some 11, day = Some 3, hours = Some 9,
                       minutes = Some 15\<rparr>,
          sender = js ''Alice'', msg_text = js ''hi\<newline>there'', isSystem = False\<rparr>,
         \<lparr>msg_id = uuid 1,
          timestamp = \<lparr>year = Some 2024, month = Some 11, day = Some 3, hours = Some 9,
                       minutes = Some 16\<rparr>,
          sender = js ''Bob'', msg_text = js ''hello'', isSystem = False\<rparr>],
      participants = [js ''Alice'', js ''Bob''],
      preview = [js ''12/03/24, 9:15 am - Alice: hi'', js ''there'',
                 js ''12/03/24, 9:16 am - Bob: hello'']\<rparr>"
    by (rule scenario_result)
next
  fix v :: "'a parse_vars" and m line
  assume a: "currentMsg v = Some m \<and> match_header line = None \<and> trim line \<noteq> []"
  show "currentMsg (parse_line uuid v line) = Some (m\<lparr>msg_text := msg_text m @ [10] @ line\<rparr>)"
    using a by (simp add: continuation_step)
  show "messages_v (parse_line uuid v line) = messages_v v"
    using a by (simp add: continuation_step)
  show "participantSet (parse_line uuid v line) = participantSet v"
    using a by (simp add: continuation_step)
next
  fix h d t s b cs
  assume a: "match_header h = Some (d, t, s, b) \<and> \<not> isSystemMessage (trim b) \<and>
      (\<forall>l \<in> set cs. match_header l = None \<and> trim l \<noteq> [])"
  then have h: "match_header h = Some (d, t, s, b)"
    and cs: "\<forall>l \<in> set cs. match_header l = None \<and> trim l \<noteq> []"
    and ns: "\<not> isSystemMessage (trim b)" by simp_all
  show "messages (parse_lines uuid (h # cs)) =
        [\<lparr>msg_id = uuid 0, timestamp = parseTimestamp d t, sender = trim s,
          msg_text = trim b @ concat (map (\<lambda>l. 10 # l) cs), isSystem = False\<rparr>]"
    using continuation_run [OF h cs, of uuid] ns
    by (simp add: parse_lines_messages started_def)
qed

text \<open>
  Claim C7 at the lines of the scenario: \<open>there\<close> after the header of Alice.
\<close>

theorem multiline_messages_witness:
  "currentMsg \<lparr>messages_v = [], participantSet = [], preview_v = [], currentMsg = Some alice_hi,
               lineCount = 0, uuidCalls = 1\<rparr> = Some alice_hi \<and>
   match_header (js ''there'') = None \<and> trim (js ''there'') \<noteq> [] \<and>
   currentMsg (parse_line id \<lparr>messages_v = [], participantSet = [], preview_v = [],
                               currentMsg = Some alice_hi, lineCount = 0, uuidCalls = 1\<rparr>
                 (js ''there''))
     = Some (alice_hi\<lparr>msg_text := js ''hi\<newline>there''\<rparr>) \<and>
   match_header (js ''12/03/24, 9:15 am - Alice: hi'')
     = Some (js ''12/03/24'', js ''9:15 am'', js ''Alice'', js ''hi'') \<and>
   \<not> isSystemMessage (trim (js ''hi'')) \<and>
   map msg_text (messages (parse_lines (id :: nat \<Rightarrow> nat)
                   [js ''12/03/24, 9:15 am - Alice: hi'', js ''there'']))
     = [js ''hi\<newline>there'']"
proof -
  have h1: "match_header (js ''there'') = None"
    by (simp add: match_header_def WHATSAPP_REGEX_def rx_defs)
  have h2: "trim (js ''there'') \<noteq> []" by (simp add: rx_defs)
  have h3: "match_header (js ''12/03/24, 9:15 am - Alice: hi'')
     = Some (js ''12/03/24'', js ''9:15 am'', js ''Alice'', js ''hi'')"
    by (simp add: match_header_def WHATSAPP_REGEX_def rx_defs)
  have h4: "\<not> isSystemMessage (trim (js ''hi''))"
    by (simp add: isSystemMessage_def SYSTEM_PATTERNS_def rx_defs)
  have tr: "trim (js ''hi'') = js ''hi''" by (simp add: rx_defs)
  note t = multiline_messages [of "id :: nat \<Rightarrow> nat"]
  have step: "currentMsg (parse_line id \<lparr>messages_v = [], participantSet = [], preview_v = [],
                               currentMsg = Some alice_hi, lineCount = 0, uuidCalls = 1\<rparr>
                 (js ''there''))
     = Some (alice_hi\<lparr>msg_text := msg_text alice_hi @ [10] @ js ''there''\<rparr>)"
    using t h1 h2 by simp
  have run: "messages (parse_lines (id :: nat \<Rightarrow> nat)
                   [js ''12/03/24, 9:15 am - Alice: hi'', js ''there''])
     = [\<lparr>msg_id = id 0, timestamp = parseTimestamp (js ''12/03/24'') (js ''9:15 am''),
          sender = trim (js ''Alice''),
          msg_text = trim (js ''hi'') @ concat (map (\<lambda>l. 10 # l) [js ''there'']),
          isSystem = False\<rparr>]"
    using t h1 h2 h3 h4 by simp
  show ?thesis
    using h1 h2 h3 h4 step run by (simp add: tr) (simp add: alice_hi_def js_def)
qed

lemma digit_not_sep: "isDigit x \<Longrightarrow> x \<notin> set (js ''/-.'')"
  by (auto simp: isDigit_def js_def)

lemma digit_not_space: "isDigit x \<Longrightarrow> \<not> isSpace x"
  by (auto simp: isDigit_def isSpace_def)

lemma split_acc_skip:
  "\<forall>x \<in> set a. \<not> p x \<Longrightarrow> split_acc p acc (a @ rest) = split_acc p (rev a @ acc) rest"
  by (induction a arbitrary: acc) auto

lemma split_three:
  assumes "\<forall>x \<in> set a. \<not> p x" "\<forall>x \<in> set b. \<not> p x" "\<forall>x \<in> set c. \<not> p x" "p s1" "p s2"
  shows "split p (a @ [s1] @ b @ [s2] @ c) = [a, b, c]"
proof -
  have "split_acc p [] (a @ s1 # b @ s2 # c) = a # split_acc p [] (b @ s2 # c)"
    using assms(1,4) by (simp add: split_acc_skip)
  also have "split_acc p [] (b @ s2 # c) = b # split_acc p [] (c @ [])"
    using assms(2,5) by (simp add: split_acc_skip)
  also have "split_acc p [] (c @ []) = [c]"
    using assms(3) by (simp only: split_acc_skip) simp
  finally show ?thesis by (simp add: split_def)
qed

lemma parseInt_digits:
  assumes "a \<noteq> []" "list_all isDigit a"
  shows "parseInt a = Some (numeral_value 10 a)"
proof -
  obtain x xs where a: "a = x # xs" using assms(1) by (cases a) auto
  have dx: "isDigit x" and dxs: "list_all isDigit xs" using assms(2) a by simp_all
  have sg: "x \<noteq> 43" "x \<noteq> 45" using dx by (auto simp: isDigit_def)
  have hex: "\<not> (case xs of [] \<Rightarrow> False | b # u \<Rightarrow> x = 48 \<and> (b = 120 \<or> b = 88))"
    using dxs by (cases xs) (auto simp: isDigit_def)
  have tw: "takeWhile isDigit xs = xs" using dxs by (simp add: list_all_iff)
  show ?thesis
    unfolding a parseInt_def using dx sg hex
    by (simp add: Let_def digit_not_space tw)
qed


text \<open>
  Claim C6. A date token of three groups of digits between separators is read day-first
  when the first number exceeds 12, otherwise month-first when the second exceeds 12,
  and month-first otherwise (the month handed to \<open>Date\<close> counts from 0); a year below
  100 has 2000 added.
\<close>

theorem parseTimestamp_date_parts:
  assumes "a \<noteq> []" "list_all isDigit a"
    and "b \<noteq> []" "list_all isDigit b"
    and "c \<noteq> []" "list_all isDigit c"
    and "s1 \<in> set (js ''/-.'')" "s2 \<in> set (js ''/-.'')"
  shows "(if numeral_value 10 a > 12 then
            day (parseTimestamp (a @ [s1] @ b @ [s2] @ c) timeStr) = Some (numeral_value 10 a) \<and>
            month (parseTimestamp (a @ [s1] @ b @ [s2] @ c) timeStr) = Some (numeral_value 10 b - 1)
          else if numeral_value 10 b > 12 then
            month (parseTimestamp (a @ [s1] @ b @ [s2] @ c) timeStr) = Some (numeral_value 10 a - 1) \<and>
            day (parseTimestamp (a @ [s1] @ b @ [s2] @ c) timeStr) = Some (numeral_value 10 b)
          else
            month (parseTimestamp (a @ [s1] @ b @ [s2] @ c) timeStr) = Some (numeral_value 10 a - 1) \<and>
            day (parseTimestamp (a @ [s1] @ b @ [s2] @ c) timeStr) = Some (numeral_value 10 b)) \<and>
         year (parseTimestamp (a @ [s1] @ b @ [s2] @ c) timeStr) =
           Some (if numeral_value 10 c < 100 then numeral_value 10 c + 2000
                 else numeral_value 10 c)"
proof -
  have na: "\<forall>x \<in> set a. \<not> x \<in> set (js ''/-.'')"
    using assms(2) by (auto simp: list_all_iff dest: digit_not_sep)
  have nb: "\<forall>x \<in> set b. \<not> x \<in> set (js ''/-.'')"
    using assms(4) by (auto simp: list_all_iff dest: digit_not_sep)
  have nc: "\<forall>x \<in> set c. \<not> x \<in> set (js ''/-.'')"
    using assms(6) by (auto simp: list_all_iff dest: digit_not_sep)
  have sp: "split (\<lambda>c. c \<in> set (js ''/-.'')) (a @ [s1] @ b @ [s2] @ c) = [a, b, c]"
    by (rule split_three [where p = "\<lambda>c. c \<in> set (js ''/-.'')", OF na nb nc assms(7) assms(8)])
  have p0: "parseInt_at [a, b, c] 0 = Some (numeral_value 10 a)"
    by (simp add: parseInt_at_def parseInt_digits [OF assms(1,2)])
  have p1: "parseInt_at [a, b, c] (Suc 0) = Some (numeral_value 10 b)"
    by (simp add: parseInt_at_def parseInt_digits [OF assms(3,4)])
  have p2: "parseInt_at [a, b, c] 2 = Some (numeral_value 10 c)"
    by (simp add: parseInt_at_def parseInt_digits [OF assms(5,6)])
  show ?thesis
    unfolding parseTimestamp_def sp
    by (simp add: Let_def p0 p1 p2 num_gt_def num_lt_def num_add_def)
qed

text \<open>Claim C6 at \<open>13/03/24\<close>: the 13th of March 2024.\<close>

theorem parseTimestamp_date_parts_witness:
  "js ''13'' \<noteq> [] \<and> list_all isDigit (js ''13'') \<and>
   js ''03'' \<noteq> [] \<and> list_all isDigit (js ''03'') \<and>
   js ''24'' \<noteq> [] \<and> list_all isDigit (js ''24'') \<and>
   (47::nat) \<in> set (js ''/-.'') \<and>
   numeral_value 10 (js ''13'') = 13 \<and> numeral_value 10 (js ''03'') = 3 \<and>
   numeral_value 10 (js ''24'') = 24 \<and>
   day (parseTimestamp (js ''13/03/24'') (js ''9:15 am'')) = Some 13 \<and>
   month (parseTimestamp (js ''13/03/24'') (js ''9:15 am'')) = Some 2 \<and>
   year (parseTimestamp (js ''13/03/24'') (js ''9:15 am'')) = Some 2024"
proof -
  have a: "js ''13'' \<noteq> []" "list_all isDigit (js ''13'')" by (simp_all add: js_def isDigit_def)
  have b: "js ''03'' \<noteq> []" "list_all isDigit (js ''03'')" by (simp_all add: js_def isDigit_def)
  have c: "js ''24'' \<noteq> []" "list_all isDigit (js ''24'')" by (simp_all add: js_def isDigit_def)
  have s: "(47::nat) \<in> set (js ''/-.'')" by (simp add: js_def)
  have v: "numeral_value 10 (js ''13'') = 13" "numeral_value 10 (js ''03'') = 3"
    "numeral_value 10 (js ''24'') = 24"
    by (simp_all add: numeral_value_def digitValue_def js_def isDigit_def)
  have e: "js ''13'' @ [47] @ js ''03'' @ [47] @ js ''24'' = js ''13/03/24''"
    by (simp add: js_def)
  note t = parseTimestamp_date_parts [OF a b c s s, of "js ''9:15 am''", unfolded e v]
  show ?thesis using a b c s v t by simp
qed

section \<open>Properties of the entitlement engine\<close>

lemmas db_defs = maybeSingle_def insert_redemption_def update_times_used_def
  subscription_defaults_def upsert_subscription_def ok_response_def getDurationEnd_def
  isFreePromo_def baseAmountINR_def

text \<open>
  Claim C1 at a failing input. The code is capped at one use and has been used once;
  \<open>redeem-promo\<close>, which checks neither the cap nor the dates nor an earlier redemption,
  accepts a second user and counts a second use.
\<close>

theorem redeem_exceeds_max_uses:
  "db_constraints db_redeemed \<and>
   map pc_max_uses (promo_codes db_redeemed) = [Some 1] \<and>
   map pc_times_used (promo_codes db_redeemed) = [1] \<and>
   fst (redeem_promo cal now ''u2'' ''p1'' db_redeemed) =
     Inr (ok_response (JObj [(''success'', JBool True), (''plan_duration'', JStr ''month'')])) \<and>
   map pc_times_used (promo_codes (snd (redeem_promo cal now ''u2'' ''p1'' db_redeemed))) = [2]"
  by (simp add: redeem_promo_def db_redeemed_def free_promo_def db_defs db_constraints_def)

text \<open>
  Claim C2 at a failing input. The user has redeemed the code before; the insert into
  \<open>promo_redemptions\<close> is refused by the unique constraint, but its result is not read:
  the counter is incremented, the subscription is upgraded and the answer is a success.
\<close>

theorem redeem_twice_by_same_user:
  "db_constraints db_redeemed \<and>
   fst (redeem_promo cal now ''u1'' ''p1'' db_redeemed) =
     Inr (ok_response (JObj [(''success'', JBool True), (''plan_duration'', JStr ''month'')])) \<and>
   promo_redemptions (snd (redeem_promo cal now ''u1'' ''p1'' db_redeemed))
     = promo_redemptions db_redeemed \<and>
   map pc_times_used (promo_codes (snd (redeem_promo cal now ''u1'' ''p1'' db_redeemed))) = [2] \<and>
   map (\<lambda>s. (us_user_id s, us_plan s, us_status s))
       (user_subscriptions (snd (redeem_promo cal now ''u1'' ''p1'' db_redeemed)))
     = [(''u1'', ''pro'', ''active'')] \<and>
   user_subscriptions db_redeemed = []"
  by (simp add: redeem_promo_def db_redeemed_def free_promo_def db_defs db_constraints_def)

lemma maybeSingle_None_iff:
  assumes "distinct (map f rows)" "\<forall>r \<in> set rows. P r \<longrightarrow> f r = k"
  shows "(maybeSingle (filter P rows) = None) = (\<forall>r \<in> set rows. \<not> P r)"
  using assms
proof (induction rows)
  case Nil
  then show ?case by (simp add: maybeSingle_def)
next
  case (Cons x rows)
  show ?case
  proof (cases "P x")
    case True
    then have "\<forall>r \<in> set rows. \<not> P r" using Cons.prems by (auto simp: image_iff)
    then have "filter P rows = []" by (simp add: filter_empty_conv)
    then show ?thesis using True by (simp add: maybeSingle_def)
  next
    case False
    then show ?thesis using Cons by simp
  qed
qed

lemma maybeSingle_Some_iff:
  assumes "distinct (map f rows)" "\<forall>r \<in> set rows. P r \<longrightarrow> f r = k"
  shows "(maybeSingle (filter P rows) = Some p) = (p \<in> set rows \<and> P p)"
  using assms
proof (induction rows)
  case Nil
  then show ?case by (simp add: maybeSingle_def)
next
  case (Cons x rows)
  show ?case
  proof (cases "P x")
    case True
    then have n: "\<forall>r \<in> set rows. \<not> P r" using Cons.prems by (auto simp: image_iff)
    then have "filter P rows = []" by (simp add: filter_empty_conv)
    then show ?thesis using True n by (auto simp: maybeSingle_def)
  next
    case False
    then show ?thesis using Cons by auto
  qed
qed

lemma unique_row:
  assumes "distinct (map f rows)" "p \<in> set rows" "q \<in> set rows" "f p = f q"
  shows "p = q"
  using assms by (meson distinct_map inj_onD)

lemma validate_promo_cases:
  assumes p: "maybeSingle (filter (\<lambda>p. pc_code p = toUpperCase code \<and> pc_is_active p = True)
                 (promo_codes d)) = Some p"
    and r: "(maybeSingle (filter (\<lambda>r. pr_promo_code_id r = pc_id p \<and> pr_user_id r = user)
                 (promo_redemptions d)) = None)
            = (\<forall>r \<in> set (promo_redemptions d).
                 \<not> (pr_promo_code_id r = pc_id p \<and> pr_user_id r = user))"
  shows "validate_promo now user code d =
     (Inr (ok_response (JObj
        (if \<exists>u. pc_valid_until p = Some u \<and> u < now
           then invalid_body ''Promo code expired''
         else if \<exists>m. pc_max_uses p = Some m \<and> m \<noteq> 0 \<and> m \<le> pc_times_used p
           then invalid_body ''Promo code fully redeemed''
         else if \<exists>r \<in> set (promo_redemptions d).
                    pr_promo_code_id r = pc_id p \<and> pr_user_id r = user
           then invalid_body ''Already used this promo code''
         else terms_body p))), d)"
proof -
  have e: "(\<exists>u. pc_valid_until p = Some u \<and> u < now)
             = (case pc_valid_until p of None \<Rightarrow> False | Some u \<Rightarrow> u < now)"
    by (cases "pc_valid_until p") simp_all
  have m: "(\<exists>m. pc_max_uses p = Some m \<and> m \<noteq> 0 \<and> m \<le> pc_times_used p)
             = (case pc_max_uses p of None \<Rightarrow> False | Some m \<Rightarrow> m \<noteq> 0 \<and> pc_times_used p \<ge> m)"
    by (cases "pc_max_uses p") simp_all
  show ?thesis
  proof (cases "maybeSingle (filter (\<lambda>r. pr_promo_code_id r = pc_id p \<and> pr_user_id r = user)
                 (promo_redemptions d))")
    case None
    then have n: "\<not> (\<exists>r \<in> set (promo_redemptions d).
                 pr_promo_code_id r = pc_id p \<and> pr_user_id r = user)"
      using r by simp
    show ?thesis
      unfolding validate_promo_def p e m using n
      by (auto simp: invalid_body_def terms_body_def maybeSingle_def)
  next
    case (Some x)
    then have n: "\<exists>r \<in> set (promo_redemptions d).
                 pr_promo_code_id r = pc_id p \<and> pr_user_id r = user"
      using r by auto
    show ?thesis
      unfolding validate_promo_def p e m using n
      by (simp add: invalid_body_def terms_body_def Some)
  qed
qed

text \<open>
  Claim C3, as amended. \<open>validate-promo\<close> leaves the database as it was and answers with
  status 200. The answer is valid exactly when an active code of that (upper-cased) name
  exists, its \<open>valid_until\<close> is unset or not before now, its \<open>max_uses\<close> is unset, zero or
  above \<open>times_used\<close>, and the user has no redemption of it; \<open>valid_from\<close> is not looked
  at. For the code found the answer is, in this order, expired, fully redeemed, already
  used, or the terms of the discount; with no such code it is the invalid-code answer.
\<close>

theorem validate_promo_result:
  assumes "db_constraints d"
  shows "snd (validate_promo now user code d) = d \<and>
    (\<exists>b. fst (validate_promo now user code d) = Inr (ok_response (JObj b)) \<and>
      (map_of b ''valid'' = Some (JBool True) \<longleftrightarrow>
         (\<exists>p \<in> set (promo_codes d).
            pc_code p = toUpperCase code \<and> pc_is_active p \<and> promo_usable now user d p)) \<and>
      (\<forall>p \<in> set (promo_codes d). pc_code p = toUpperCase code \<and> pc_is_active p \<longrightarrow>
         b = (if \<exists>u. pc_valid_until p = Some u \<and> u < now
                then invalid_body ''Promo code expired''
              else if \<exists>m. pc_max_uses p = Some m \<and> m \<noteq> 0 \<and> m \<le> pc_times_used p
                then invalid_body ''Promo code fully redeemed''
              else if \<exists>r \<in> set (promo_redemptions d).
                         pr_promo_code_id r = pc_id p \<and> pr_user_id r = user
                then invalid_body ''Already used this promo code''
              else terms_body p)) \<and>
      ((\<forall>p \<in> set (promo_codes d). \<not> (pc_code p = toUpperCase code \<and> pc_is_active p)) \<longrightarrow>
         b = invalid_body ''Invalid promo code''))"
proof -
  let ?P = "\<lambda>p. pc_code p = toUpperCase code \<and> pc_is_active p = True"
  have dc: "distinct (map pc_code (promo_codes d))"
    and dr: "distinct (map (\<lambda>r. (pr_promo_code_id r, pr_user_id r)) (promo_redemptions d))"
    using assms by (simp_all add: db_constraints_def)
  have kc: "\<forall>r \<in> set (promo_codes d). ?P r \<longrightarrow> pc_code r = toUpperCase code" by simp
  show ?thesis
  proof (cases "maybeSingle (filter ?P (promo_codes d))")
    case None
    then have no: "\<forall>r \<in> set (promo_codes d). \<not> ?P r"
      using maybeSingle_None_iff [OF dc kc] by simp
    have v: "validate_promo now user code d =
               (Inr (ok_response (JObj (invalid_body ''Invalid promo code''))), d)"
      using None by (simp add: validate_promo_def invalid_body_def)
    show ?thesis unfolding v using no by (auto simp: invalid_body_def)
  next
    case (Some p)
    then have p: "p \<in> set (promo_codes d)" "?P p"
      using maybeSingle_Some_iff [OF dc kc, of p] by simp_all
    have uniq: "\<forall>q \<in> set (promo_codes d). pc_code q = toUpperCase code \<and> pc_is_active q \<longrightarrow> q = p"
    proof (intro ballI impI)
      fix q assume q: "q \<in> set (promo_codes d)" "pc_code q = toUpperCase code \<and> pc_is_active q"
      have "pc_code q = pc_code p" using q(2) p(2) by simp
      then show "q = p" by (rule unique_row [OF dc q(1) p(1)])
    qed
    let ?R = "\<lambda>r. pr_promo_code_id r = pc_id p \<and> pr_user_id r = user"
    have kr: "\<forall>r \<in> set (promo_redemptions d).
                ?R r \<longrightarrow> (pr_promo_code_id r, pr_user_id r) = (pc_id p, user)" by simp
    have ex: "(maybeSingle (filter ?R (promo_redemptions d)) = None)
                = (\<forall>r \<in> set (promo_redemptions d). \<not> ?R r)"
      by (rule maybeSingle_None_iff [OF dr kr])
    let ?b = "if \<exists>u. pc_valid_until p = Some u \<and> u < now
                then invalid_body ''Promo code expired''
              else if \<exists>m. pc_max_uses p = Some m \<and> m \<noteq> 0 \<and> m \<le> pc_times_used p
                then invalid_body ''Promo code fully redeemed''
              else if \<exists>r \<in> set (promo_redemptions d). ?R r
                then invalid_body ''Already used this promo code''
              else terms_body p"
    have v: "validate_promo now user code d = (Inr (ok_response (JObj ?b)), d)"
      by (rule validate_promo_cases [OF Some ex])
    have valid_iff: "(map_of ?b ''valid'' = Some (JBool True)) = promo_usable now user d p"
      by (auto simp: invalid_body_def terms_body_def promo_usable_def not_less)
    have pu: "pc_code p = toUpperCase code \<and> pc_is_active p" using p(2) by simp
    have a: "(\<exists>q \<in> set (promo_codes d).
                 pc_code q = toUpperCase code \<and> pc_is_active q \<and> promo_usable now user d q)
              = promo_usable now user d p"
    proof
      assume "\<exists>q \<in> set (promo_codes d).
                 pc_code q = toUpperCase code \<and> pc_is_active q \<and> promo_usable now user d q"
      then obtain q where q: "q \<in> set (promo_codes d)"
          "pc_code q = toUpperCase code \<and> pc_is_active q" "promo_usable now user d q" by blast
      then have "q = p" using uniq by blast
      then show "promo_usable now user d p" using q(3) by simp
    next
      assume "promo_usable now user d p"
      then show "\<exists>q \<in> set (promo_codes d).
                 pc_code q = toUpperCase code \<and> pc_is_active q \<and> promo_usable now user d q"
        using p(1) pu by blast
    qed
    have c: "\<not> (\<forall>q \<in> set (promo_codes d). \<not> (pc_code q = toUpperCase code \<and> pc_is_active q))"
      using p(1) pu by blast
    define b where "b = ?b"
    have vb: "map_of b ''valid'' = Some (JBool True) \<longleftrightarrow>
         (\<exists>p \<in> set (promo_codes d).
            pc_code p = toUpperCase code \<and> pc_is_active p \<and> promo_usable now user d p)"
      unfolding a b_def by (rule valid_iff)
    have ub: "\<forall>q \<in> set (promo_codes d). pc_code q = toUpperCase code \<and> pc_is_active q \<longrightarrow>
         b = (if \<exists>u. pc_valid_until q = Some u \<and> u < now
                then invalid_body ''Promo code expired''
              else if \<exists>m. pc_max_uses q = Some m \<and> m \<noteq> 0 \<and> m \<le> pc_times_used q
                then invalid_body ''Promo code fully redeemed''
              else if \<exists>r \<in> set (promo_redemptions d).
                         pr_promo_code_id r = pc_id q \<and> pr_user_id r = user
                then invalid_body ''Already used this promo code''
              else terms_body q)"
    proof (intro ballI impI)
      fix q assume q: "q \<in> set (promo_codes d)" "pc_code q = toUpperCase code \<and> pc_is_active q"
      then have "q = p" using uniq by blast
      then show "b = (if \<exists>u. pc_valid_until q = Some u \<and> u < now
                then invalid_body ''Promo code expired''
              else if \<exists>m. pc_max_uses q = Some m \<and> m \<noteq> 0 \<and> m \<le> pc_times_used q
                then invalid_body ''Promo code fully redeemed''
              else if \<exists>r \<in> set (promo_redemptions d).
                         pr_promo_code_id r = pc_id q \<and> pr_user_id r = user
                then invalid_body ''Already used this promo code''
              else terms_body q)"
        by (simp only: b_def)
    qed
    have nb: "(\<forall>p \<in> set (promo_codes d). \<not> (pc_code p = toUpperCase code \<and> pc_is_active p)) \<longrightarrow>
         b = invalid_body ''Invalid promo code''"
      using c by blast
    have v': "validate_promo now user code d = (Inr (ok_response (JObj b)), d)"
      using v by (simp only: b_def)
    show ?thesis
      unfolding v' fst_conv snd_conv
      using vb ub nb by blast
  qed
qed

lemma upper_early: "toUpperCase ''early'' = ''EARLY''"
  by (simp add: toUpperCase_def)

text \<open>
  Claim C3 as stated fails: a code whose \<open>valid_from\<close> is 2000 is valid at time 1000.
\<close>

theorem validate_accepts_code_before_valid_from:
  "db_constraints db_future \<and>
   \<not> pc_valid_from future_promo \<le> 1000 \<and>
   fst (validate_promo 1000 ''u1'' ''early'' db_future) =
     Inr (ok_response (JObj [(''valid'', JBool True),
                             (''discount_type'', JStr ''percentage''),
                             (''discount_value'', JNum 100),
                             (''plan_duration'', JStr ''year''),
                             (''promo_id'', JStr ''p2'')]))"
  by (simp add: validate_promo_def upper_early db_future_def future_promo_def db_constraints_def
        maybeSingle_def)

text \<open>Claim C3, as amended, on a database with one code: the answer is its terms.\<close>

theorem validate_promo_result_witness:
  "db_constraints db_future \<and>
   snd (validate_promo 3000 ''u1'' ''early'' db_future) = db_future \<and>
   fst (validate_promo 3000 ''u1'' ''early'' db_future) =
     Inr (ok_response (JObj (terms_body future_promo)))"
proof -
  have h: "db_constraints db_future"
    by (simp add: db_future_def future_promo_def db_constraints_def)
  note t = validate_promo_result [OF h, of 3000 "''u1''" "''early''"]
  from t have s: "snd (validate_promo 3000 ''u1'' ''early'' db_future) = db_future" by blast
  from t obtain b where b: "fst (validate_promo 3000 ''u1'' ''early'' db_future)
        = Inr (ok_response (JObj b))"
    and u: "\<forall>p \<in> set (promo_codes db_future).
         pc_code p = toUpperCase ''early'' \<and> pc_is_active p \<longrightarrow>
         b = (if \<exists>u. pc_valid_until p = Some u \<and> u < 3000
                then invalid_body ''Promo code expired''
              else if \<exists>m. pc_max_uses p = Some m \<and> m \<noteq> 0 \<and> m \<le> pc_times_used p
                then invalid_body ''Promo code fully redeemed''
              else if \<exists>r \<in> set (promo_redemptions db_future).
                         pr_promo_code_id r = pc_id p \<and> pr_user_id r = ''u1''
                then invalid_body ''Already used this promo code''
              else terms_body p)"
    by blast
  have "b = terms_body future_promo"
    using u by (simp add: db_future_def future_promo_def upper_early)
  then show ?thesis using h s b by simp
qed

lemma upsert_subscription_row:
  assumes "\<And>r. us_user_id (cols r) = us_user_id r"
  shows "\<exists>s \<in> set (user_subscriptions (upsert_subscription u now cols d)).
           us_user_id s = u \<and> (\<exists>r. s = cols r)"
proof (cases "u \<in> set (map us_user_id (user_subscriptions d))")
  case True
  then obtain r where r: "r \<in> set (user_subscriptions d)" "us_user_id r = u" by auto
  have "cols r \<in> set (user_subscriptions (upsert_subscription u now cols d))"
    using True r by (auto simp: upsert_subscription_def image_iff intro!: bexI [of _ r])
  then show ?thesis using assms r(2) by (intro bexI [of _ "cols r"]) auto
next
  case False
  have "cols (subscription_defaults u now)
          \<in> set (user_subscriptions (upsert_subscription u now cols d))"
    using False by (simp add: upsert_subscription_def)
  then show ?thesis using assms
    by (intro bexI [of _ "cols (subscription_defaults u now)"])
       (auto simp: subscription_defaults_def)
qed

lemma redeem_promo_success:
  assumes "redeem_promo cal now user promoId d = (Inr resp, d')"
  shows "(\<exists>p \<in> set (promo_codes d). pc_id p = promoId \<and> pc_is_active p \<and> isFreePromo p) \<and>
         (\<exists>s \<in> set (user_subscriptions d').
             us_user_id s = user \<and> us_plan s = ''pro'' \<and> us_status s = ''active'')"
proof (cases "maybeSingle (filter (\<lambda>p. pc_id p = promoId \<and> pc_is_active p = True) (promo_codes d))")
  case None
  then show ?thesis using assms by (simp add: redeem_promo_def)
next
  case (Some p)
  then have "filter (\<lambda>p. pc_id p = promoId \<and> pc_is_active p = True) (promo_codes d) = [p]"
    by (auto simp: maybeSingle_def split: list.splits)
  then have "p \<in> set (filter (\<lambda>p. pc_id p = promoId \<and> pc_is_active p = True) (promo_codes d))"
    by simp
  then have p: "p \<in> set (promo_codes d)" "pc_id p = promoId" "pc_is_active p" by simp_all
  have f: "isFreePromo p" using assms Some by (auto simp: redeem_promo_def split: if_splits)
  let ?cols = "\<lambda>r. r\<lparr>us_plan := ''pro'', us_status := ''active'',
                      us_plan_duration := Some (pc_plan_duration p),
                      us_current_period_start := Some now,
                      us_current_period_end := Some (getDurationEnd cal now (pc_plan_duration p))\<rparr>"
  obtain d2 where d': "d' = upsert_subscription user now ?cols d2"
    using assms Some f by (auto simp: redeem_promo_def Let_def split: prod.splits)
  have "\<exists>s \<in> set (user_subscriptions d'). us_user_id s = user \<and> (\<exists>r. s = ?cols r)"
    unfolding d' by (rule upsert_subscription_row) simp
  then have "\<exists>s \<in> set (user_subscriptions d').
             us_user_id s = user \<and> us_plan s = ''pro'' \<and> us_status s = ''active''"
    by auto
  then show ?thesis using p f by blast
qed

lemma redeem_promo_error:
  assumes "redeem_promo cal now user promoId d = (Inl msg, d')"
  shows "d' = d"
  using assms
  by (auto simp: redeem_promo_def Let_def split: option.splits if_splits prod.splits)

lemma redeem_promo_partial:
  assumes "db_constraints d" "p \<in> set (promo_codes d)" "pc_id p = promoId" "pc_is_active p"
  shows "maybeSingle (filter (\<lambda>p. pc_id p = promoId \<and> pc_is_active p = True) (promo_codes d)) = Some p"
proof -
  have dc: "distinct (map pc_id (promo_codes d))" using assms(1) by (simp add: db_constraints_def)
  have k: "\<forall>r \<in> set (promo_codes d). pc_id r = promoId \<and> pc_is_active r = True \<longrightarrow> pc_id r = promoId"
    by simp
  show ?thesis using maybeSingle_Some_iff [OF dc k, of p] assms by simp
qed

lemma floor_half: "\<lfloor>(1::rat) / 2\<rfloor> = 0"
  by (rule floor_unique) simp_all

text \<open>
  Claim C9. A successful \<open>redeem-promo\<close>, which talks to no gateway, found an active code
  that is a percentage of at least 100 or a fixed amount of at least 499, and leaves the
  user with an active pro subscription; a failed one leaves the database as it was. A
  percentage code of 50 is refused with the advice to pay, the page routes it to
  \<open>razorpay-create-order\<close>, and the order is for 24950 paise or 450 cents, half the price.
\<close>

theorem redeem_only_full_discount:
  "(\<forall>resp d'. redeem_promo cal now user promoId d = (Inr resp, d') \<longrightarrow>
      (\<exists>p \<in> set (promo_codes d). pc_id p = promoId \<and> pc_is_active p \<and>
          ((pc_discount_type p = ''percentage'' \<and> pc_discount_value p \<ge> 100) \<or>
           (pc_discount_type p = ''fixed'' \<and> pc_discount_value p \<ge> 499))) \<and>
      (\<exists>s \<in> set (user_subscriptions d').
          us_user_id s = user \<and> us_plan s = ''pro'' \<and> us_status s = ''active'')) \<and>
   (\<forall>msg d'. redeem_promo cal now user promoId d = (Inl msg, d') \<longrightarrow> d' = d) \<and>
   (\<forall>p. db_constraints d \<and> p \<in> set (promo_codes d) \<and> pc_id p = promoId \<and> promoId \<noteq> [] \<and>
        pc_is_active p \<and> pc_discount_type p = ''percentage'' \<and> pc_discount_value p = 50 \<longrightarrow>
      redeem_promo cal now user promoId d =
        (Inl ''This promo code gives a discount. Please proceed with payment.'', d) \<and>
      handleRedeemPromo_route p = CreateOrder \<and>
      order_amount ''INR'' (Some promoId) d = 24950 \<and>
      order_amount ''USD'' (Some promoId) d = 450)"
proof (intro conjI allI impI)
  fix resp d'
  assume a: "redeem_promo cal now user promoId d = (Inr resp, d')"
  show "\<exists>p \<in> set (promo_codes d). pc_id p = promoId \<and> pc_is_active p \<and>
          ((pc_discount_type p = ''percentage'' \<and> pc_discount_value p \<ge> 100) \<or>
           (pc_discount_type p = ''fixed'' \<and> pc_discount_value p \<ge> 499))"
    using redeem_promo_success [OF a] by (simp add: isFreePromo_def baseAmountINR_def)
  show "\<exists>s \<in> set (user_subscriptions d').
          us_user_id s = user \<and> us_plan s = ''pro'' \<and> us_status s = ''active''"
    using redeem_promo_success [OF a] by simp
next
  fix msg d'
  assume "redeem_promo cal now user promoId d = (Inl msg, d')"
  then show "d' = d" by (rule redeem_promo_error)
next
  fix p
  assume a: "db_constraints d \<and> p \<in> set (promo_codes d) \<and> pc_id p = promoId \<and> promoId \<noteq> [] \<and>
        pc_is_active p \<and> pc_discount_type p = ''percentage'' \<and> pc_discount_value p = 50"
  then have m: "maybeSingle (filter (\<lambda>p. pc_id p = promoId \<and> pc_is_active p = True)
                   (promo_codes d)) = Some p"
    using redeem_promo_partial [of d p promoId] by simp
  have m2: "maybeSingle (filter (\<lambda>p. pc_id p = promoId \<and> pc_is_active p) (promo_codes d)) = Some p"
    using m by simp
  have nf: "\<not> isFreePromo p" using a by (simp add: isFreePromo_def)
  show "redeem_promo cal now user promoId d =
        (Inl ''This promo code gives a discount. Please proceed with payment.'', d)"
    unfolding redeem_promo_def m using nf by simp
  show "handleRedeemPromo_route p = CreateOrder"
    using a by (simp add: handleRedeemPromo_route_def)
  show "order_amount ''INR'' (Some promoId) d = 24950"
    using a by (simp add: order_amount_def m2 Let_def order_currency_def Math_round_def floor_half)
  show "order_amount ''USD'' (Some promoId) d = 450"
    using a by (simp add: order_amount_def m2 Let_def order_currency_def Math_round_def floor_half)
qed

text \<open>Claim C9 on a database with a code of 100 percent and a code of 50 percent.\<close>

theorem redeem_only_full_discount_witness:
  "redeem_promo cal0 5 ''u2'' ''p2'' db_half =
     (Inr (ok_response (JObj [(''success'', JBool True), (''plan_duration'', JStr ''year'')])),
      snd (redeem_promo cal0 5 ''u2'' ''p2'' db_half)) \<and>
   map (\<lambda>s. (us_user_id s, us_plan s, us_status s))
     (user_subscriptions (snd (redeem_promo cal0 5 ''u2'' ''p2'' db_half)))
     = [(''u2'', ''pro'', ''active'')] \<and>
   db_constraints db_half \<and> half_promo \<in> set (promo_codes db_half) \<and>
   pc_id half_promo = ''p3'' \<and> ''p3'' \<noteq> [] \<and> pc_is_active half_promo \<and>
   pc_discount_type half_promo = ''percentage'' \<and> pc_discount_value half_promo = 50 \<and>
   redeem_promo cal0 5 ''u2'' ''p3'' db_half =
     (Inl ''This promo code gives a discount. Please proceed with payment.'', db_half) \<and>
   handleRedeemPromo_route half_promo = CreateOrder \<and>
   order_amount ''INR'' (Some ''p3'') db_half = 24950 \<and>
   order_amount ''USD'' (Some ''p3'') db_half = 450"
proof -
  have r: "redeem_promo cal0 5 ''u2'' ''p2'' db_half =
     (Inr (ok_response (JObj [(''success'', JBool True), (''plan_duration'', JStr ''year'')])),
      snd (redeem_promo cal0 5 ''u2'' ''p2'' db_half))"
    by (simp add: redeem_promo_def db_half_def half_promo_def future_promo_def db_defs)
  have h: "db_constraints db_half \<and> half_promo \<in> set (promo_codes db_half) \<and>
     pc_id half_promo = ''p3'' \<and> ''p3'' \<noteq> [] \<and> pc_is_active half_promo \<and>
     pc_discount_type half_promo = ''percentage'' \<and> pc_discount_value half_promo = 50"
    by (simp add: db_half_def half_promo_def future_promo_def db_constraints_def)
  note t1 = redeem_only_full_discount [of cal0 5 "''u2''" "''p2''" db_half]
  note t2 = redeem_only_full_discount [of cal0 5 "''u2''" "''p3''" db_half]
  have s0: "\<exists>s \<in> set (user_subscriptions (snd (redeem_promo cal0 5 ''u2'' ''p2'' db_half))).
      us_user_id s = ''u2'' \<and> us_plan s = ''pro'' \<and> us_status s = ''active''"
    using t1 r by blast
  have s: "map (\<lambda>s. (us_user_id s, us_plan s, us_status s))
     (user_subscriptions (snd (redeem_promo cal0 5 ''u2'' ''p2'' db_half)))
     = [(''u2'', ''pro'', ''active'')]"
    by (simp add: redeem_promo_def db_half_def half_promo_def future_promo_def db_defs)
  have c: "redeem_promo cal0 5 ''u2'' ''p3'' db_half =
     (Inl ''This promo code gives a discount. Please proceed with payment.'', db_half) \<and>
   handleRedeemPromo_route half_promo = CreateOrder \<and>
   order_amount ''INR'' (Some ''p3'') db_half = 24950 \<and>
   order_amount ''USD'' (Some ''p3'') db_half = 450"
    using t2 h by blast
  show ?thesis using r s s0 h c by blast
qed

text \<open>
  Claim C4 as stated fails: a free user with 3 messages today is below the limit, and the
  send is still rejected when the upsert of the counter returns an error.
\<close>

theorem incrementUsage_rejects_on_storage_error:
  "(hs_plan \<lparr>hs_user = Some ''u1'', hs_plan = Free, hs_messagesUsedToday = 3\<rparr> = Pro \<or>
    hs_messagesUsedToday \<lparr>hs_user = Some ''u1'', hs_plan = Free, hs_messagesUsedToday = 3\<rparr> < 10) \<and>
   \<not> fst (incrementUsage ''2026-01-01'' False
            \<lparr>hs_user = Some ''u1'', hs_plan = Free, hs_messagesUsedToday = 3\<rparr> db_empty)"
  by (simp add: incrementUsage_def upsert_daily_usage_def FREE_MSG_LIMIT_def)

lemma upsert_daily_usage_bound:
  assumes "\<forall>r \<in> set (daily_usage d). du_messages_sent r \<le> n" "du_messages_sent row \<le> n"
  shows "\<forall>r \<in> set (daily_usage (snd (upsert_daily_usage ok row d))). du_messages_sent r \<le> n"
  using assms by (auto simp: upsert_daily_usage_def)

text \<open>
  Claim C4, as amended. \<open>incrementUsage\<close> accepts exactly when a user is signed in and
  the plan is pro, or the count is below 10 and the upsert of the counter goes through.
  A free user at 10 is rejected and nothing changes; and no call writes a counter above
  10.
\<close>

theorem incrementUsage_accepts:
  "(fst (incrementUsage today storage_ok h d) \<longleftrightarrow>
      hs_user h \<noteq> None \<and>
      (hs_plan h = Pro \<or> (hs_messagesUsedToday h < 10 \<and> storage_ok))) \<and>
   (hs_plan h = Free \<and> hs_messagesUsedToday h = 10 \<longrightarrow>
      incrementUsage today storage_ok h d = (False, h, d)) \<and>
   ((\<forall>r \<in> set (daily_usage d). du_messages_sent r \<le> 10) \<longrightarrow>
      (\<forall>r \<in> set (daily_usage (snd (snd (incrementUsage today storage_ok h d)))).
          du_messages_sent r \<le> 10))"
proof (intro conjI impI)
  show "fst (incrementUsage today storage_ok h d) \<longleftrightarrow>
      hs_user h \<noteq> None \<and>
      (hs_plan h = Pro \<or> (hs_messagesUsedToday h < 10 \<and> storage_ok))"
    by (cases "hs_plan h")
       (auto simp: incrementUsage_def upsert_daily_usage_def FREE_MSG_LIMIT_def Let_def
             split: option.splits)
next
  assume "hs_plan h = Free \<and> hs_messagesUsedToday h = 10"
  then show "incrementUsage today storage_ok h d = (False, h, d)"
    by (simp add: incrementUsage_def FREE_MSG_LIMIT_def split: option.splits)
next
  assume a: "\<forall>r \<in> set (daily_usage d). du_messages_sent r \<le> 10"
  show "\<forall>r \<in> set (daily_usage (snd (snd (incrementUsage today storage_ok h d)))).
          du_messages_sent r \<le> 10"
  proof (cases "hs_user h")
    case None
    then show ?thesis using a by (simp add: incrementUsage_def)
  next
    case (Some uid)
    show ?thesis
    proof (cases "hs_plan h = Pro \<or> hs_messagesUsedToday h \<ge> FREE_MSG_LIMIT")
      case True
      then show ?thesis using a Some by (auto simp: incrementUsage_def)
    next
      case False
      then have le: "hs_messagesUsedToday h + 1 \<le> 10" by (simp add: FREE_MSG_LIMIT_def)
      have "\<forall>r \<in> set (daily_usage (snd (upsert_daily_usage storage_ok
                 \<lparr>du_user_id = uid, du_usage_date = today,
                  du_messages_sent = hs_messagesUsedToday h + 1\<rparr> d))).
              du_messages_sent r \<le> 10"
        by (rule upsert_daily_usage_bound [OF a]) (simp add: le)
      then show ?thesis using False Some
        by (simp add: incrementUsage_def Let_def split: prod.splits)
    qed
  qed
qed

text \<open>Claim C4, as amended, for a free user at 10 and at 9 messages.\<close>

theorem incrementUsage_accepts_witness:
  "hs_plan \<lparr>hs_user = Some ''u1'', hs_plan = Free, hs_messagesUsedToday = 10\<rparr> = Free \<and>
   hs_messagesUsedToday \<lparr>hs_user = Some ''u1'', hs_plan = Free, hs_messagesUsedToday = 10\<rparr> = 10 \<and>
   incrementUsage ''2026-01-01'' True
       \<lparr>hs_user = Some ''u1'', hs_plan = Free, hs_messagesUsedToday = 10\<rparr>
       (db_empty\<lparr>daily_usage := [\<lparr>du_user_id = ''u1'', du_usage_date = ''2026-01-01'',
                                    du_messages_sent = 10\<rparr>]\<rparr>)
     = (False, \<lparr>hs_user = Some ''u1'', hs_plan = Free, hs_messagesUsedToday = 10\<rparr>,
        db_empty\<lparr>daily_usage := [\<lparr>du_user_id = ''u1'', du_usage_date = ''2026-01-01'',
                                    du_messages_sent = 10\<rparr>]\<rparr>) \<and>
   fst (incrementUsage ''2026-01-01'' True
       \<lparr>hs_user = Some ''u1'', hs_plan = Free, hs_messagesUsedToday = 9\<rparr>
       (db_empty\<lparr>daily_usage := [\<lparr>du_user_id = ''u1'', du_usage_date = ''2026-01-01'',
                                    du_messages_sent = 9\<rparr>]\<rparr>)) \<and>
   list_all (\<lambda>r. du_messages_sent r \<le> 10)
     (daily_usage (snd (snd (incrementUsage ''2026-01-01'' True
       \<lparr>hs_user = Some ''u1'', hs_plan = Free, hs_messagesUsedToday = 9\<rparr>
       (db_empty\<lparr>daily_usage := [\<lparr>du_user_id = ''u1'', du_usage_date = ''2026-01-01'',
                                    du_messages_sent = 9\<rparr>]\<rparr>)))))"
proof -
  let ?h10 = "\<lparr>hs_user = Some ''u1'', hs_plan = Free, hs_messagesUsedToday = 10\<rparr>"
  let ?h9 = "\<lparr>hs_user = Some ''u1'', hs_plan = Free, hs_messagesUsedToday = 9\<rparr>"
  let ?d10 = "db_empty\<lparr>daily_usage := [\<lparr>du_user_id = ''u1'', du_usage_date = ''2026-01-01'',
                                    du_messages_sent = 10\<rparr>]\<rparr>"
  let ?d9 = "db_empty\<lparr>daily_usage := [\<lparr>du_user_id = ''u1'', du_usage_date = ''2026-01-01'',
                                    du_messages_sent = 9\<rparr>]\<rparr>"
  have a: "hs_plan ?h10 = Free \<and> hs_messagesUsedToday ?h10 = 10" by simp
  have b: "\<forall>r \<in> set (daily_usage ?d9). du_messages_sent r \<le> 10" by simp
  note t10 = incrementUsage_accepts [of "''2026-01-01''" True ?h10 ?d10]
  note t9 = incrementUsage_accepts [of "''2026-01-01''" True ?h9 ?d9]
  have c: "incrementUsage ''2026-01-01'' True ?h10 ?d10 = (False, ?h10, ?d10)"
    using t10 a by blast
  have d: "fst (incrementUsage ''2026-01-01'' True ?h9 ?d9)"
    using t9 by simp
  have "\<forall>r \<in> set (daily_usage (snd (snd (incrementUsage ''2026-01-01'' True ?h9 ?d9)))).
      du_messages_sent r \<le> 10"
    using t9 b by blast
  then have e: "list_all (\<lambda>r. du_messages_sent r \<le> 10)
      (daily_usage (snd (snd (incrementUsage ''2026-01-01'' True ?h9 ?d9))))"
    by (simp only: list_all_iff)
  show ?thesis using a c d e by blast
qed

section \<open>Properties of the payment handlers\<close>

lemmas sha_defs = w32_def rotr_def shr_def not32_def Ch_def Maj_def Sigma0_def Sigma1_def
  sigma0_def sigma1_def K256_def H256_def compress_def be_bytes4_def be_bytes8_def pad_def sha256_def
  hmac_sha256_def hex_digit_def to_hex_def encode_def

lemma replicate_numeral: "replicate (numeral k) x = x # replicate (pred_numeral k) x"
  by (simp add: numeral_eq_Suc)


text \<open>Two published test vectors: FIPS 180-4 for \<open>abc\<close>, and RFC 4231, test case 2.\<close>

lemma sha256_abc:
  "to_hex (sha256 (encode ''abc''))
     = ''ba7816bf8f01cfea414140de5dae2223b00361a396177a9cb410ff61f20015ad''"
  by (simp add: sha_defs replicate_numeral)

lemma inner_rfc4231:
  "sha256
     [124, 83, 80, 83, 54, 54, 54, 54, 54, 54, 54, 54, 54, 54, 54, 54, 54, 54, 54, 54, 54,
     54, 54, 54, 54, 54, 54, 54, 54, 54, 54, 54, 54, 54, 54, 54, 54, 54, 54, 54, 54, 54, 54,
     54, 54, 54, 54, 54, 54, 54, 54, 54, 54, 54, 54, 54, 54, 54, 54, 54, 54, 54, 54, 54, 119,
     104, 97, 116, 32, 100, 111, 32, 121, 97, 32, 119, 97, 110, 116, 32, 102, 111, 114, 32,
     110, 111, 116, 104, 105, 110, 103, 63]
   = [162, 228, 133, 134, 61, 39, 249, 216, 100, 172, 141, 128, 36, 50, 161, 237, 71, 125,
     140, 76, 111, 52, 157, 22, 212, 231, 233, 23, 198, 41, 202, 215]"
  by (simp add: sha_defs replicate_numeral)

lemma outer_rfc4231:
  "sha256
     [22, 57, 58, 57, 92, 92, 92, 92, 92, 92, 92, 92, 92, 92, 92, 92, 92, 92, 92, 92, 92, 92,
     92, 92, 92, 92, 92, 92, 92, 92, 92, 92, 92, 92, 92, 92, 92, 92, 92, 92, 92, 92, 92, 92,
     92, 92, 92, 92, 92, 92, 92, 92, 92, 92, 92, 92, 92, 92, 92, 92, 92, 92, 92, 92, 162,
     228, 133, 134, 61, 39, 249, 216, 100, 172, 141, 128, 36, 50, 161, 237, 71, 125, 140, 76,
     111, 52, 157, 22, 212, 231, 233, 23, 198, 41, 202, 215]
   = [91, 220, 193, 70, 191, 96, 117, 78, 106, 4, 36, 38, 8, 149, 117, 199, 90, 0, 63, 8,
     157, 39, 57, 131, 157, 236, 88, 185, 100, 236, 56, 67]"
  by (simp add: sha_defs replicate_numeral)

lemma hmac_rfc4231:
  "to_hex (hmac_sha256 (encode ''Jefe'') (encode ''what do ya want for nothing?''))
     = ''5bdcc146bf60754e6a042426089575c75a003f089d2739839dec58b964ec3843''"
  by (simp add: hmac_sha256_def encode_def replicate_numeral inner_rfc4231 outer_rfc4231
        to_hex_def hex_digit_def)

text \<open>The tags of the two messages of the examples under the key \<open>secret\<close>.\<close>

lemma inner_with_separator:
  "sha256
     [69, 83, 85, 68, 83, 66, 54, 54, 54, 54, 54, 54, 54, 54, 54, 54, 54, 54, 54, 54, 54, 54,
     54, 54, 54, 54, 54, 54, 54, 54, 54, 54, 54, 54, 54, 54, 54, 54, 54, 54, 54, 54, 54, 54,
     54, 54, 54, 54, 54, 54, 54, 54, 54, 54, 54, 54, 54, 54, 54, 54, 54, 54, 54, 54, 111,
     114, 100, 101, 114, 95, 49, 124, 112, 97, 121, 95, 49]
   = [44, 148, 31, 55, 157, 138, 244, 152, 148, 100, 147, 49, 22, 146, 14, 3, 74, 133, 99,
     14, 156, 239, 48, 20, 161, 14, 99, 103, 187, 125, 87, 43]"
  by (simp add: sha_defs replicate_numeral)

lemma outer_with_separator:
  "sha256
     [47, 57, 63, 46, 57, 40, 92, 92, 92, 92, 92, 92, 92, 92, 92, 92, 92, 92, 92, 92, 92, 92,
     92, 92, 92, 92, 92, 92, 92, 92, 92, 92, 92, 92, 92, 92, 92, 92, 92, 92, 92, 92, 92, 92,
     92, 92, 92, 92, 92, 92, 92, 92, 92, 92, 92, 92, 92, 92, 92, 92, 92, 92, 92, 92, 44, 148,
     31, 55, 157, 138, 244, 152, 148, 100, 147, 49, 22, 146, 14, 3, 74, 133, 99, 14, 156,
     239, 48, 20, 161, 14, 99, 103, 187, 125, 87, 43]
   = [82, 17, 90, 13, 52, 0, 222, 158, 134, 170, 222, 31, 27, 110, 186, 158, 137, 116, 96,
     79, 78, 38, 122, 158, 154, 22, 99, 58, 76, 141, 210, 203]"
  by (simp add: sha_defs replicate_numeral)

lemma hmac_with_separator:
  "to_hex (hmac_sha256 (encode ''secret'') (encode ''order_1|pay_1''))
     = ''52115a0d3400de9e86aade1f1b6eba9e8974604f4e267a9e9a16633a4c8dd2cb''"
  by (simp add: hmac_sha256_def encode_def replicate_numeral inner_with_separator outer_with_separator
        to_hex_def hex_digit_def)

lemma inner_without_separator:
  "sha256
     [69, 83, 85, 68, 83, 66, 54, 54, 54, 54, 54, 54, 54, 54, 54, 54, 54, 54, 54, 54, 54, 54,
     54, 54, 54, 54, 54, 54, 54, 54, 54, 54, 54, 54, 54, 54, 54, 54, 54, 54, 54, 54, 54, 54,
     54, 54, 54, 54, 54, 54, 54, 54, 54, 54, 54, 54, 54, 54, 54, 54, 54, 54, 54, 54, 111,
     114, 100, 101, 114, 95, 49, 112, 97, 121, 95, 49]
   = [40, 235, 195, 59, 121, 200, 96, 254, 91, 65, 73, 49, 113, 34, 188, 212, 165, 130, 54,
     97, 172, 63, 212, 192, 203, 24, 79, 129, 202, 254, 183, 219]"
  by (simp add: sha_defs replicate_numeral)

lemma outer_without_separator:
  "sha256
     [47, 57, 63, 46, 57, 40, 92, 92, 92, 92, 92, 92, 92, 92, 92, 92, 92, 92, 92, 92, 92, 92,
     92, 92, 92, 92, 92, 92, 92, 92, 92, 92, 92, 92, 92, 92, 92, 92, 92, 92, 92, 92, 92, 92,
     92, 92, 92, 92, 92, 92, 92, 92, 92, 92, 92, 92, 92, 92, 92, 92, 92, 92, 92, 92, 40, 235,
     195, 59, 121, 200, 96, 254, 91, 65, 73, 49, 113, 34, 188, 212, 165, 130, 54, 97, 172,
     63, 212, 192, 203, 24, 79, 129, 202, 254, 183, 219]
   = [71, 211, 171, 152, 160, 202, 167, 104, 56, 93, 226, 34, 32, 128, 9, 174, 48, 104, 238,
     26, 66, 73, 7, 205, 39, 185, 31, 41, 187, 64, 68, 46]"
  by (simp add: sha_defs replicate_numeral)

lemma hmac_without_separator:
  "to_hex (hmac_sha256 (encode ''secret'') (encode ''order_1pay_1''))
     = ''47d3ab98a0caa768385de222208009ae3068ee1a424907cd27b91f29bb40442e''"
  by (simp add: hmac_sha256_def encode_def replicate_numeral inner_without_separator outer_without_separator
        to_hex_def hex_digit_def)

text \<open>
  Claim C5, as amended. \<open>razorpay-verify\<close> answers 200 only when the supplied signature
  is the lower-case hex of the keyed hash, under the configured secret, of the order id,
  the character \<open>|\<close> and the payment id; \<open>razorpay-webhook\<close> answers 200 only when the
  signature header is that of the raw body. With any other signature the answer is 400
  (500 when no secret is configured) and the database is left as it was.
\<close>

theorem payment_signature_gate:
  "(status (fst (razorpay_verify hmac cal now secret authHeader user oid pid sig d)) = 200 \<longrightarrow>
      (\<exists>k. secret = Some k \<and> sig = to_hex (hmac (encode k) (encode (oid @ ''|'' @ pid))))) \<and>
   ((\<forall>k. secret = Some k \<longrightarrow> sig \<noteq> to_hex (hmac (encode k) (encode (oid @ ''|'' @ pid)))) \<longrightarrow>
      status (fst (razorpay_verify hmac cal now secret authHeader user oid pid sig d)) = 400 \<and>
      snd (razorpay_verify hmac cal now secret authHeader user oid pid sig d) = d) \<and>
   (status (fst (razorpay_webhook hmac parse cal now secret bdy header d)) = 200 \<longrightarrow>
      (\<exists>k. secret = Some k \<and>
           signature_or_empty header = to_hex (hmac (encode k) (encode bdy)))) \<and>
   ((\<forall>k. secret = Some k \<longrightarrow>
          signature_or_empty header \<noteq> to_hex (hmac (encode k) (encode bdy))) \<longrightarrow>
      status (fst (razorpay_webhook hmac parse cal now secret bdy header d)) \<in> {400, 500} \<and>
      snd (razorpay_webhook hmac parse cal now secret bdy header d) = d)"
proof (intro conjI impI)
  assume "status (fst (razorpay_verify hmac cal now secret authHeader user oid pid sig d)) = 200"
  then show "\<exists>k. secret = Some k \<and> sig = to_hex (hmac (encode k) (encode (oid @ ''|'' @ pid)))"
    by (auto simp: razorpay_verify_def verifySignature_def Let_def ok_response_def
          split: option.splits if_splits)
next
  assume a: "\<forall>k. secret = Some k \<longrightarrow> sig \<noteq> to_hex (hmac (encode k) (encode (oid @ ''|'' @ pid)))"
  then show "status (fst (razorpay_verify hmac cal now secret authHeader user oid pid sig d)) = 400"
    by (auto simp: razorpay_verify_def verifySignature_def Let_def split: option.splits)
  show "snd (razorpay_verify hmac cal now secret authHeader user oid pid sig d) = d"
    using a by (auto simp: razorpay_verify_def verifySignature_def Let_def split: option.splits)
next
  assume "status (fst (razorpay_webhook hmac parse cal now secret bdy header d)) = 200"
  then show "\<exists>k. secret = Some k \<and>
           signature_or_empty header = to_hex (hmac (encode k) (encode bdy))"
    by (auto simp: razorpay_webhook_def verifyWebhookSignature_def Let_def ok_response_def
          signature_or_empty_def split: option.splits if_splits sum.splits)
next
  assume a: "\<forall>k. secret = Some k \<longrightarrow>
          signature_or_empty header \<noteq> to_hex (hmac (encode k) (encode bdy))"
  then show "status (fst (razorpay_webhook hmac parse cal now secret bdy header d)) \<in> {400, 500}"
    by (auto simp: razorpay_webhook_def verifyWebhookSignature_def Let_def
          signature_or_empty_def split: option.splits)
  show "snd (razorpay_webhook hmac parse cal now secret bdy header d) = d"
    using a by (auto simp: razorpay_webhook_def verifyWebhookSignature_def Let_def
          signature_or_empty_def split: option.splits)
qed

text \<open>
  Claim C5 as stated fails: the signature \<open>5211...\<close> is not the keyed hash of the
  concatenation \<open>order_1pay_1\<close> (that is \<open>47d3...\<close>), and the payment is trusted all the
  same and the subscription activated, because the hash is taken over \<open>order_1|pay_1\<close>.
\<close>

theorem verify_signs_with_separator:
  "to_hex (hmac_sha256 (encode ''secret'') (encode (''order_1'' @ ''pay_1'')))
     \<noteq> ''52115a0d3400de9e86aade1f1b6eba9e8974604f4e267a9e9a16633a4c8dd2cb'' \<and>
   fst (razorpay_verify hmac_sha256 cal0 0 (Some ''secret'') (Some ''Bearer token'') (Some ''u1'')
          ''order_1'' ''pay_1''
          ''52115a0d3400de9e86aade1f1b6eba9e8974604f4e267a9e9a16633a4c8dd2cb'' db_empty)
     = ok_response (JObj [(''success'', JBool True), (''plan'', JStr ''pro'')]) \<and>
   map us_plan
     (user_subscriptions
        (snd (razorpay_verify hmac_sha256 cal0 0 (Some ''secret'') (Some ''Bearer token'')
                (Some ''u1'') ''order_1'' ''pay_1''
                ''52115a0d3400de9e86aade1f1b6eba9e8974604f4e267a9e9a16633a4c8dd2cb'' db_empty)))
     = [''pro''] \<and>
   user_subscriptions db_empty = []"
  by (simp add: razorpay_verify_def verifySignature_def hmac_with_separator
        hmac_without_separator upsert_subscription_def subscription_defaults_def db_empty_def)

text \<open>
  Claim C5, as amended, with the secret \<open>secret\<close>: the signature of \<open>order_1|pay_1\<close> is
  accepted by both handlers, another one and a missing one are refused.
\<close>

theorem payment_signature_gate_witness:
  "status (fst (razorpay_verify hmac_sha256 cal0 0 (Some ''secret'') (Some ''Bearer token'')
             (Some ''u1'') ''order_1'' ''pay_1''
             ''52115a0d3400de9e86aade1f1b6eba9e8974604f4e267a9e9a16633a4c8dd2cb'' db_empty)) = 200 \<and>
   ''52115a0d3400de9e86aade1f1b6eba9e8974604f4e267a9e9a16633a4c8dd2cb''
     = to_hex (hmac_sha256 (encode ''secret'') (encode (''order_1'' @ ''|'' @ ''pay_1''))) \<and>
   razorpay_verify hmac_sha256 cal0 0 (Some ''secret'') (Some ''Bearer token'')
       (Some ''u1'') ''order_1'' ''pay_1''
       ''47d3ab98a0caa768385de222208009ae3068ee1a424907cd27b91f29bb40442e'' db_empty
     = (\<lparr>status = 400, body = JObj [(''error'', JStr ''Invalid payment signature'')]\<rparr>,
        db_empty) \<and>
   status (fst (razorpay_webhook hmac_sha256 parse_ping cal0 0 (Some ''secret'')
             ''order_1|pay_1''
             (Some ''52115a0d3400de9e86aade1f1b6eba9e8974604f4e267a9e9a16633a4c8dd2cb'')
             db_empty)) = 200 \<and>
   razorpay_webhook hmac_sha256 parse_ping cal0 0 (Some ''secret'') ''order_1|pay_1'' None
       db_empty
     = (\<lparr>status = 400, body = JObj [(''error'', JStr ''Invalid signature'')]\<rparr>, db_empty)"
proof -
  let ?good = "''52115a0d3400de9e86aade1f1b6eba9e8974604f4e267a9e9a16633a4c8dd2cb''"
  let ?bad = "''47d3ab98a0caa768385de222208009ae3068ee1a424907cd27b91f29bb40442e''"
  have e: "?good = to_hex (hmac_sha256 (encode ''secret'') (encode (''order_1'' @ ''|'' @ ''pay_1'')))"
    by (simp add: hmac_with_separator)
  have a: "status (fst (razorpay_verify hmac_sha256 cal0 0 (Some ''secret'') (Some ''Bearer token'')
             (Some ''u1'') ''order_1'' ''pay_1'' ?good db_empty)) = 200"
    by (simp add: razorpay_verify_def verifySignature_def hmac_with_separator ok_response_def)
  have n: "\<forall>k. Some ''secret'' = Some k \<longrightarrow>
             ?bad \<noteq> to_hex (hmac_sha256 (encode k) (encode (''order_1'' @ ''|'' @ ''pay_1'')))"
    by (simp add: hmac_with_separator)
  have m: "\<forall>k. Some ''secret'' = Some k \<longrightarrow>
             signature_or_empty None \<noteq> to_hex (hmac_sha256 (encode k) (encode ''order_1|pay_1''))"
    by (simp add: hmac_with_separator signature_or_empty_def)
  note t1 = payment_signature_gate [of hmac_sha256 cal0 0 "Some ''secret''" "Some ''Bearer token''"
      "Some ''u1''" "''order_1''" "''pay_1''" ?bad db_empty parse_ping "''order_1|pay_1''" None]
  have b1: "status (fst (razorpay_verify hmac_sha256 cal0 0 (Some ''secret'') (Some ''Bearer token'')
       (Some ''u1'') ''order_1'' ''pay_1'' ?bad db_empty)) = 400"
    and b2: "snd (razorpay_verify hmac_sha256 cal0 0 (Some ''secret'') (Some ''Bearer token'')
       (Some ''u1'') ''order_1'' ''pay_1'' ?bad db_empty) = db_empty"
    using t1 n by blast+
  have b: "razorpay_verify hmac_sha256 cal0 0 (Some ''secret'') (Some ''Bearer token'')
       (Some ''u1'') ''order_1'' ''pay_1'' ?bad db_empty
     = (\<lparr>status = 400, body = JObj [(''error'', JStr ''Invalid payment signature'')]\<rparr>,
        db_empty)"
    using b2 by (simp add: razorpay_verify_def verifySignature_def hmac_with_separator)
  have c: "status (fst (razorpay_webhook hmac_sha256 parse_ping cal0 0 (Some ''secret'')
             ''order_1|pay_1'' (Some ?good) db_empty)) = 200"
    by (simp add: razorpay_webhook_def verifyWebhookSignature_def hmac_with_separator
          parse_ping_def webhook_event_def bind_throw_def ok_response_def)
  have d2: "snd (razorpay_webhook hmac_sha256 parse_ping cal0 0 (Some ''secret'') ''order_1|pay_1''
       None db_empty) = db_empty"
    using t1 m by blast
  have d: "razorpay_webhook hmac_sha256 parse_ping cal0 0 (Some ''secret'') ''order_1|pay_1'' None
       db_empty
     = (\<lparr>status = 400, body = JObj [(''error'', JStr ''Invalid signature'')]\<rparr>, db_empty)"
    using d2 by (simp add: razorpay_webhook_def verifyWebhookSignature_def hmac_with_separator)
  show ?thesis using a e b c d by blast
qed

end
